theory Spec2Isabelle
  imports Main "HOL-Library.Sublist"
begin

section \<open>The plugin object and its promise chains (lib/index.js)\<close>

text \<open>
  \<^verbatim>\<open>lib/index.js\<close> is the controller of the plugin: its constructor copies the capability
  modules (compilers, execution client, yaml parser, naming) onto \<^verbatim>\<open>this\<close> and wires
  them into lifecycle hooks, each hook a bluebird promise chain bound to \<^verbatim>\<open>this\<close>.
  The capability modules themselves live in other files; they are parameters of the
  model. What is modelled in full is the code of \<^verbatim>\<open>index.js\<close>: the constructor, the
  hooks, \<^verbatim>\<open>invoke\<close> and \<^verbatim>\<open>display\<close>.
\<close>

subsection \<open>Failures, the observable world, promises\<close>

text \<open>
  A promise is rejected with whatever a capability method rejects with or throws
  (\<open>Rejected e\<close>), or with the \<^verbatim>\<open>TypeError\<close> that JavaScript raises when
  \<^verbatim>\<open>index.js\<close> itself reads a property of \<^verbatim>\<open>undefined\<close>.
\<close>

datatype 'e failure = Rejected 'e | TypeError

text \<open>The methods that \<^verbatim>\<open>index.js\<close> calls on \<^verbatim>\<open>this\<close>, by name.\<close>

datatype method_name =
    CompileIamRole | CompileStateMachines | CompileActivities | CompileAlarms
  | CompileNotifications
  | CompileScheduledEvents | HttpValidate
  | CompileRestApi | CompileResources | CompileMethods | CompileRequestValidators
  | CompileAuthorizers | CompileHttpLambdaPermissions | CompileCors | CompileHttpIamRole
  | CompileDeployment | CompileApiKeys | CompileUsagePlan | CompileUsagePlanKeys
  | CompileCloudWatchEventEvents
  | GetStateMachineArn | StartExecution | DescribeExecution | GetExecutionHistory

text \<open>What \<^verbatim>\<open>logger.log\<close> is given: a string or an object.\<close>

datatype 'r logged = LogText string | LogObject 'r

text \<open>
  The world a hook runs in: the calls made so far, each with whether it settled
  successfully (the observation the ordering claims are about), \<^verbatim>\<open>process.exitCode\<close>,
  what \<^verbatim>\<open>index.js\<close> has passed to \<^verbatim>\<open>logger.log\<close>, and the plugin object \<^verbatim>\<open>this\<close>.
\<close>

record ('r, 's) world =
  calls :: "(method_name \<times> bool) list"
  exitCode :: int
  console :: "'r logged list"
  self :: 's

type_synonym ('e, 'v, 'w) promise = "'w \<Rightarrow> ('e failure + 'v) \<times> 'w"

text \<open>
  \<^verbatim>\<open>p.then(f)\<close>: a rejected promise skips \<^verbatim>\<open>f\<close> and stays rejected, a fulfilled one
  hands its value to \<^verbatim>\<open>f\<close>, and whatever \<^verbatim>\<open>f\<close> returns or throws settles the result.
\<close>

definition promise_then ::
  "('e, 'a, 'w) promise \<Rightarrow> ('a \<Rightarrow> ('e, 'b, 'w) promise) \<Rightarrow> ('e, 'b, 'w) promise" where
  "promise_then p f = (\<lambda>w. case p w of (Inl e, w') \<Rightarrow> (Inl e, w') | (Inr v, w') \<Rightarrow> f v w')"

text \<open>\<^verbatim>\<open>BbPromise.bind(this)\<close> and \<^verbatim>\<open>BbPromise.resolve()\<close>: fulfilled with \<^verbatim>\<open>undefined\<close>.\<close>

definition BbPromise_bind :: "('e, 'v option, 'w) promise" where
  "BbPromise_bind = (\<lambda>w. (Inr None, w))"

definition BbPromise_resolve :: "('e, 'v option, 'w) promise" where
  "BbPromise_resolve = (\<lambda>w. (Inr None, w))"

fun fulfilled :: "'a + 'b \<Rightarrow> bool" where
  "fulfilled (Inl e) = False"
| "fulfilled (Inr v) = True"

text \<open>
  Calling a method of \<^verbatim>\<open>this\<close>: the method works on the plugin object and settles; the
  call and its outcome are recorded.
\<close>

definition call_method ::
  "method_name \<Rightarrow> ('s \<Rightarrow> ('e failure + 'v) \<times> 's) \<Rightarrow> ('e, 'v, ('r, 's) world) promise" where
  "call_method n m = (\<lambda>w.
     case m (self w) of (r, s') \<Rightarrow>
       (r, w\<lparr>calls := calls w @ [(n, fulfilled r)], self := s'\<rparr>))"

definition logger_log :: "'r logged \<Rightarrow> ('r, 's) world \<Rightarrow> ('r, 's) world" where
  "logger_log x w = w\<lparr>console := console w @ [x]\<rparr>"

subsection \<open>The compilers and the packaging hooks\<close>

text \<open>
  The compilers are methods mixed into \<^verbatim>\<open>this\<close> from \<^verbatim>\<open>./deploy/...\<close>: each receives the
  value the previous link of the chain resolved with, works on \<^verbatim>\<open>this\<close>, and settles.
\<close>

type_synonym ('e, 'v, 's) compilers =
  "method_name \<Rightarrow> 'v option \<Rightarrow> 's \<Rightarrow> ('e failure + 'v option) \<times> 's"

text \<open>What \<^verbatim>\<open>httpValidate\<close> returns: the http events found, and the rest of the object.\<close>

record ('ev, 'o) validated_http =
  validated_events :: "'ev list"
  validated_other :: 'o

text \<open>
  The fields of the plugin object that \<^verbatim>\<open>index.js\<close> itself writes or reads;
  \<open>plugin_rest\<close> is everything else the mixed-in modules keep on \<^verbatim>\<open>this\<close>.
\<close>

record ('n, 'api, 'val, 'x) plugin =
  options :: "(string \<times> string) list"
  v3Api :: "'api option"
  service :: 'n
  region :: "string option"
  stage :: string
  pluginhttpValidated :: "'val option"
  validated :: "'val option"
  endpointInfo :: "string option"
  plugin_rest :: 'x

text \<open>
  \<^verbatim>\<open>'package:compileFunctions': () => BbPromise.bind(this)
    .then(this.compileIamRole).then(this.compileStateMachines)
    .then(this.compileActivities).then(this.compileAlarms)
    .then(this.compileNotifications)\<close>
\<close>

definition package_compileFunctions ::
  "('e, 'v, 's) compilers \<Rightarrow> ('e, 'v option, ('r, 's) world) promise" where
  "package_compileFunctions this =
     promise_then (promise_then (promise_then (promise_then (promise_then
       BbPromise_bind
       (\<lambda>v. call_method CompileIamRole (this CompileIamRole v)))
       (\<lambda>v. call_method CompileStateMachines (this CompileStateMachines v)))
       (\<lambda>v. call_method CompileActivities (this CompileActivities v)))
       (\<lambda>v. call_method CompileAlarms (this CompileAlarms v)))
       (\<lambda>v. call_method CompileNotifications (this CompileNotifications v))"

text \<open>
  The chain that \<^verbatim>\<open>'package:compileEvents'\<close> returns when \<^verbatim>\<open>httpValidate\<close> found
  events: \<^verbatim>\<open>BbPromise.bind(this).then(this.compileRestApi) ... .then(this.compileUsagePlanKeys)\<close>.
\<close>

definition http_chain ::
  "('e, 'v, 's) compilers \<Rightarrow> ('e, 'v option, ('r, 's) world) promise" where
  "http_chain this =
     promise_then (promise_then (promise_then (promise_then (promise_then (promise_then
     (promise_then (promise_then (promise_then (promise_then (promise_then (promise_then
       BbPromise_bind
       (\<lambda>v. call_method CompileRestApi (this CompileRestApi v)))
       (\<lambda>v. call_method CompileResources (this CompileResources v)))
       (\<lambda>v. call_method CompileMethods (this CompileMethods v)))
       (\<lambda>v. call_method CompileRequestValidators (this CompileRequestValidators v)))
       (\<lambda>v. call_method CompileAuthorizers (this CompileAuthorizers v)))
       (\<lambda>v. call_method CompileHttpLambdaPermissions (this CompileHttpLambdaPermissions v)))
       (\<lambda>v. call_method CompileCors (this CompileCors v)))
       (\<lambda>v. call_method CompileHttpIamRole (this CompileHttpIamRole v)))
       (\<lambda>v. call_method CompileDeployment (this CompileDeployment v)))
       (\<lambda>v. call_method CompileApiKeys (this CompileApiKeys v)))
       (\<lambda>v. call_method CompileUsagePlan (this CompileUsagePlan v)))
       (\<lambda>v. call_method CompileUsagePlanKeys (this CompileUsagePlanKeys v))"

text \<open>
  \<^verbatim>\<open>'package:compileEvents': () => this.compileScheduledEvents().then(() => {
      this.pluginhttpValidated = this.httpValidate();
      this.validated = this.pluginhttpValidated;
      if (this.pluginhttpValidated.events.length === 0) { return BbPromise.resolve(); }
      return BbPromise.bind(this).then(this.compileRestApi) ... ;
    }).then(() => this.compileCloudWatchEventEvents())\<close>

  \<^verbatim>\<open>httpValidate\<close> is synchronous; when it throws inside the callback, the promise of
  the callback is rejected. \<^verbatim>\<open>compileScheduledEvents\<close> and
  \<^verbatim>\<open>compileCloudWatchEventEvents\<close> are called without an argument.
\<close>

definition package_compileEvents ::
  "('e, 'v, ('n, 'api, ('ev, 'o) validated_http, 'x) plugin) compilers \<Rightarrow>
   (('n, 'api, ('ev, 'o) validated_http, 'x) plugin \<Rightarrow>
      ('e failure + ('ev, 'o) validated_http) \<times> ('n, 'api, ('ev, 'o) validated_http, 'x) plugin) \<Rightarrow>
   ('e, 'v option, ('r, ('n, 'api, ('ev, 'o) validated_http, 'x) plugin) world) promise" where
  "package_compileEvents this httpValidate =
     promise_then (promise_then
       (call_method CompileScheduledEvents (this CompileScheduledEvents None))
       (\<lambda>_. promise_then (call_method HttpValidate httpValidate)
          (\<lambda>r w.
             let w1 = w\<lparr>self := (self w)\<lparr>pluginhttpValidated := Some r\<rparr>\<rparr>;
                 w2 = w1\<lparr>self := (self w1)\<lparr>validated := pluginhttpValidated (self w1)\<rparr>\<rparr>
             in if length (validated_events r) = 0 then BbPromise_resolve w2
                else http_chain this w2)))
       (\<lambda>_. call_method CompileCloudWatchEventEvents (this CompileCloudWatchEventEvents None))"

subsection \<open>The constructor\<close>

text \<open>
  What the constructor reads from the host framework's \<^verbatim>\<open>serverless\<close> object:
  \<^verbatim>\<open>serverless.service.service\<close>, \<^verbatim>\<open>serverless.service.provider.region\<close> and
  \<^verbatim>\<open>serverless.service.provider.stage\<close>; a key the configuration does not give is
  \<^verbatim>\<open>undefined\<close>, here \<open>None\<close>.
\<close>

record 'n serverless =
  service_service :: 'n
  provider_region :: "string option"
  provider_stage :: "string option"

text \<open>
  \<^verbatim>\<open>a || b\<close> on a string that may be \<^verbatim>\<open>undefined\<close>: \<^verbatim>\<open>undefined\<close> and the empty string are
  falsy, every other string is truthy.
\<close>

fun js_or :: "string option \<Rightarrow> string \<Rightarrow> string" where
  "js_or None d = d"
| "js_or (Some s) d = (if s = [] then d else s)"

text \<open>
  \<^verbatim>\<open>constructor(serverless, options, v3Api) {
    this.serverless = serverless; this.options = options || {}; this.v3Api = v3Api;
    this.provider = this.serverless.getProvider('aws');
    this.service = this.serverless.service.service;
    this.region = this.serverless.service.provider.region;
    this.stage = this.serverless.service.provider.stage || 'ap-southeast-2';
    ... }\<close>

  The mixed-in methods, the command table and the hooks are the definitions of this
  theory; the registration of the configuration schema with a version-4 host acts on
  the host only. \<open>rest\<close> is what else the modules will keep on \<^verbatim>\<open>this\<close>.
\<close>

definition constructor ::
  "'n serverless \<Rightarrow> (string \<times> string) list option \<Rightarrow> 'api option \<Rightarrow> 'x \<Rightarrow>
   ('n, 'api, 'val, 'x) plugin" where
  "constructor sls opts api rest =
     \<lparr> options = (case opts of None \<Rightarrow> [] | Some os \<Rightarrow> os),
       v3Api = api,
       service = service_service sls,
       region = provider_region sls,
       stage = js_or (provider_stage sls) ''ap-southeast-2'',
       pluginhttpValidated = None,
       validated = None,
       endpointInfo = None,
       plugin_rest = rest \<rparr>"

subsection \<open>The invoke workflow\<close>

text \<open>
  The execution client (\<^verbatim>\<open>./invoke/invoke\<close>): what \<^verbatim>\<open>describeExecution\<close> resolves with has
  a \<^verbatim>\<open>status\<close>; what \<^verbatim>\<open>getExecutionHistory\<close> resolves with has a list of events, each
  with or without \<^verbatim>\<open>executionFailedEventDetails\<close>.
\<close>

record 'x execution =
  status :: string
  execution_rest :: 'x

record 'd history_event =
  executionFailedEventDetails :: "'d option"

record 'd execution_history =
  history_events :: "'d history_event list"

record ('e, 's, 'a, 'b, 'x, 'd) execution_client =
  getStateMachineArn :: "'s \<Rightarrow> ('e failure + 'a) \<times> 's"
  startExecution :: "'a \<Rightarrow> 's \<Rightarrow> ('e failure + 'b) \<times> 's"
  describeExecution :: "'b \<Rightarrow> 's \<Rightarrow> ('e failure + 'x execution) \<times> 's"
  getExecutionHistory :: "'s \<Rightarrow> ('e failure + 'd execution_history) \<times> 's"

text \<open>
  \<^verbatim>\<open>invoke() {
    return BbPromise.bind(this)
      .then(this.getStateMachineArn).then(this.startExecution).then(this.describeExecution)
      .then((result) => {
        logger.log('');
        if (result.status === 'FAILED') {
          return this.getExecutionHistory().then((error) => {
            logger.log(_.merge(result,
              error.events[error.events.length - 1].executionFailedEventDetails));
            process.exitCode = 1;
          });
        }
        logger.log(result);
        return BbPromise.resolve();
      });
  }\<close>

  \<open>merge\<close> is lodash's \<^verbatim>\<open>_.merge\<close> on the result and the details (\<open>None\<close> when the
  last event has none). Of an empty list of events the last element is
  \<^verbatim>\<open>undefined\<close>, and reading its property throws a \<^verbatim>\<open>TypeError\<close>.
\<close>

definition invoke ::
  "('e, 's, 'a, 'b, 'x, 'd) execution_client \<Rightarrow>
   ('x execution \<Rightarrow> 'd option \<Rightarrow> 'x execution) \<Rightarrow>
   ('e, unit, ('x execution, 's) world) promise" where
  "invoke this merge =
     promise_then (promise_then (promise_then (promise_then
       BbPromise_bind
       (\<lambda>_ :: unit option. call_method GetStateMachineArn (getStateMachineArn this)))
       (\<lambda>arn. call_method StartExecution (startExecution this arn)))
       (\<lambda>executionArn. call_method DescribeExecution (describeExecution this executionArn)))
       (\<lambda>result w.
          let w1 = logger_log (LogText []) w
          in if status result = ''FAILED''
             then promise_then
                    (call_method GetExecutionHistory (getExecutionHistory this))
                    (\<lambda>error w2.
                       case history_events error of
                         [] \<Rightarrow> (Inl TypeError, w2)
                       | e # es \<Rightarrow>
                           let w3 = logger_log
                                 (LogObject (merge result
                                    (executionFailedEventDetails (last (e # es))))) w2
                           in (Inr (), w3\<lparr>exitCode := 1\<rparr>))
                    w1
             else let w2 = logger_log (LogObject result) w1 in (Inr (), w2))"

subsection \<open>Strings\<close>

text \<open>
  A string is the sequence of the bytes of its UTF-8 encoding: an ASCII character is
  one byte below 128, any other character is several bytes from 128 on, so splitting
  at an ASCII character, comparing and concatenating do on the bytes what JavaScript
  does on the characters. \<^verbatim>\<open>s.split(c)\<close> for a separator of one character: the pieces
  between the occurrences of \<^verbatim>\<open>c\<close>, at least one piece.
\<close>

fun js_split :: "char \<Rightarrow> string \<Rightarrow> string list" where
  "js_split c [] = [[]]"
| "js_split c (x # xs) =
     (if x = c then [] # js_split c xs
      else (case js_split c xs of [] \<Rightarrow> [[x]] | p # ps \<Rightarrow> (x # p) # ps))"

text \<open>\<^verbatim>\<open>pieces.join(sep)\<close>\<close>

fun js_join :: "string \<Rightarrow> string list \<Rightarrow> string" where
  "js_join sep [] = []"
| "js_join sep [p] = p"
| "js_join sep (p # q # ps) = p @ sep @ js_join sep (q # ps)"

text \<open>
  \<^verbatim>\<open>s.toUpperCase()\<close> is the built-in of the language. On ASCII text it turns the
  letters a to z into A to Z and leaves every other character; on text with a
  character beyond ASCII it is the case mapping of Unicode, which may also change the
  length; that mapping is the parameter \<open>unicode\<close>.
\<close>

definition upper_char :: "char \<Rightarrow> char" where
  "upper_char c =
     (if (97::nat) \<le> of_char c \<and> of_char c \<le> (122::nat)
      then char_of (of_char c - (32::nat)) else c)"

definition ascii :: "string \<Rightarrow> bool" where
  "ascii s = list_all (\<lambda>c. of_char c < (128::nat)) s"

definition toUpperCase :: "(string \<Rightarrow> string) \<Rightarrow> string \<Rightarrow> string" where
  "toUpperCase unicode s = (if ascii s then map upper_char s else unicode s)"

subsection \<open>The post-deploy display\<close>

text \<open>
  An event of a state machine has an \<^verbatim>\<open>http\<close> key or not; its value is an object, with
  or without \<^verbatim>\<open>method\<close> and \<^verbatim>\<open>path\<close>, or a string.
\<close>

datatype http_binding = HttpObject "string option" "string option" | HttpString string

record event =
  http :: "http_binding option"

text \<open>\<^verbatim>\<open>stateMachineObj.events\<close>: \<open>None\<close> when it is absent or not an array.\<close>

record state_machine =
  events :: "event list option"

text \<open>
  The helpers of \<^verbatim>\<open>./yamlParser\<close> that \<^verbatim>\<open>display\<close> calls on \<^verbatim>\<open>this\<close>, and the styling
  functions of chalk: \<^verbatim>\<open>chalk.hex('#fd5750')\<close>, \<^verbatim>\<open>chalk.grey\<close>,
  \<^verbatim>\<open>chalk.yellow.underline\<close>, \<^verbatim>\<open>chalk.yellow\<close>.
\<close>

record yamlParser =
  isStateMachines :: bool
  getAllStateMachines :: "string list"
  getStateMachine :: "string \<Rightarrow> state_machine"

record chalk =
  hex_fd5750 :: "string \<Rightarrow> string"
  grey :: "string \<Rightarrow> string"
  yellow_underline :: "string \<Rightarrow> string"
  yellow :: "string \<Rightarrow> string"

text \<open>\<^verbatim>\<open>if (event.http)\<close>: an object is truthy, a string is truthy unless empty.\<close>

fun truthy :: "http_binding option \<Rightarrow> bool" where
  "truthy None = False"
| "truthy (Some (HttpObject m p)) = True"
| "truthy (Some (HttpString s)) = (s \<noteq> [])"

text \<open>
  \<^verbatim>\<open>path = path !== '/' ? `/${path.split('/').filter(p => p !== '').join('/')}` : ''\<close>
\<close>

definition display_path :: "string \<Rightarrow> string" where
  "display_path path =
     (if path \<noteq> ''/'' then ''/'' @ js_join ''/'' (filter (\<lambda>p. p \<noteq> []) (js_split (CHR ''/'') path))
      else [])"

text \<open>
  The body of \<^verbatim>\<open>if (event.http) { ... }\<close>: the text appended to
  \<^verbatim>\<open>stateMachineMessages\<close>, \<^verbatim>\<open>`\n  ${method} - ${endpointInfo}${path}`\<close>. Calling
  \<^verbatim>\<open>toUpperCase\<close> or \<^verbatim>\<open>split\<close> on \<^verbatim>\<open>undefined\<close> throws a \<^verbatim>\<open>TypeError\<close>.
\<close>

fun http_message ::
  "(string \<Rightarrow> string) \<Rightarrow> string \<Rightarrow> http_binding \<Rightarrow> 'e failure + string" where
  "http_message unicode endpoint (HttpObject None p) = Inl TypeError"
| "http_message unicode endpoint (HttpObject (Some m) None) = Inl TypeError"
| "http_message unicode endpoint (HttpObject (Some m) (Some p)) =
     Inr (''\<newline>  '' @ toUpperCase unicode m @ '' - '' @ endpoint @ display_path p)"
| "http_message unicode endpoint (HttpString s) =
     (case js_split (CHR '' '') s of
        m # p # _ \<Rightarrow>
          Inr (''\<newline>  '' @ toUpperCase unicode m @ '' - '' @ endpoint @ display_path p)
      | _ \<Rightarrow> Inl TypeError)"

text \<open>\<^verbatim>\<open>stateMachineObj.events.forEach((event) => { if (event.http) { ... } })\<close>\<close>

fun events_forEach ::
  "(string \<Rightarrow> string) \<Rightarrow> string \<Rightarrow> event list \<Rightarrow> string \<Rightarrow> 'e failure + string" where
  "events_forEach unicode endpoint [] stateMachineMessages = Inr stateMachineMessages"
| "events_forEach unicode endpoint (ev # evs) stateMachineMessages =
     (if truthy (http ev) then
        (case http ev of
           None \<Rightarrow> events_forEach unicode endpoint evs stateMachineMessages
         | Some h \<Rightarrow>
             (case http_message unicode endpoint h of
                Inl e \<Rightarrow> Inl e
              | Inr line \<Rightarrow>
                  events_forEach unicode endpoint evs (stateMachineMessages @ line)))
      else events_forEach unicode endpoint evs stateMachineMessages)"

text \<open>
  \<^verbatim>\<open>_.forEach(this.getAllStateMachines(), (stateMachineName) => {
     const stateMachineObj = this.getStateMachine(stateMachineName);
     if (stateMachineObj.events != null && _.isArray(stateMachineObj.events)) { ... } })\<close>
\<close>

fun stateMachines_forEach ::
  "(string \<Rightarrow> string) \<Rightarrow> yamlParser \<Rightarrow> string \<Rightarrow> string list \<Rightarrow> string \<Rightarrow>
   'e failure + string" where
  "stateMachines_forEach unicode this endpoint [] stateMachineMessages =
     Inr stateMachineMessages"
| "stateMachines_forEach unicode this endpoint (stateMachineName # names) stateMachineMessages =
     (case events (getStateMachine this stateMachineName) of
        None \<Rightarrow> stateMachines_forEach unicode this endpoint names stateMachineMessages
      | Some evs \<Rightarrow>
          (case events_forEach unicode endpoint evs stateMachineMessages of
             Inl e \<Rightarrow> Inl e
           | Inr msgs \<Rightarrow> stateMachines_forEach unicode this endpoint names msgs))"

text \<open>The check mark U+2714 of the version-3 heading, in UTF-8.\<close>

definition check_mark :: string where
  "check_mark = [char_of (226::nat), char_of (156::nat), char_of (148::nat)]"

text \<open>The heading that \<^verbatim>\<open>display\<close> starts \<^verbatim>\<open>message\<close> with.\<close>

definition display_heading :: "chalk \<Rightarrow> 'api option \<Rightarrow> string" where
  "display_heading ch api =
     (case api of
        Some _ \<Rightarrow> ''\<newline>'' @ hex_fd5750 ch check_mark @ '' Serverless StepFunctions Outputs\<newline>''
                    @ grey ch ''endpoints:''
      | None \<Rightarrow> yellow_underline ch ''Serverless StepFunctions Outputs'' @ ''\<newline>''
                    @ yellow ch ''endpoints:'')"

text \<open>A template literal prints \<^verbatim>\<open>undefined\<close> as the text \<^verbatim>\<open>undefined\<close>.\<close>

fun template_string :: "string option \<Rightarrow> string" where
  "template_string None = ''undefined''"
| "template_string (Some s) = s"

text \<open>
  \<^verbatim>\<open>display() { ...
    if (_.isEmpty(stateMachineMessages)) { return ''; }
    message += stateMachineMessages; message += '\n';
    logger.log(message);
    return message; }\<close>
\<close>

definition display ::
  "chalk \<Rightarrow> (string \<Rightarrow> string) \<Rightarrow> yamlParser \<Rightarrow>
   ('e, string, ('r, ('n, 'api, 'val, 'x) plugin) world) promise" where
  "display ch unicode this = (\<lambda>w.
     let message = display_heading ch (v3Api (self w));
         endpoint = template_string (endpointInfo (self w))
     in case (if isStateMachines this
              then stateMachines_forEach unicode this endpoint (getAllStateMachines this) []
              else Inr []) of
          Inl e \<Rightarrow> (Inl e, w)
        | Inr stateMachineMessages \<Rightarrow>
            if stateMachineMessages = [] then (Inr [], w)
            else let message2 = message @ stateMachineMessages @ ''\<newline>''
                 in (Inr message2, logger_log (LogText message2) w))"

subsection \<open>Chains as lists\<close>

text \<open>
  A chain \<^verbatim>\<open>BbPromise.bind(this).then(this.m1). ... .then(this.mk)\<close>, given by the list of
  its methods; the hooks above are such chains, which the lemmas below show.
\<close>

definition run_chain ::
  "('e, 'v, 's) compilers \<Rightarrow> method_name list \<Rightarrow> ('e, 'v option, ('r, 's) world) promise" where
  "run_chain this ns =
     foldl (\<lambda>p n. promise_then p (\<lambda>v. call_method n (this n v))) BbPromise_bind ns"

definition compileFunctions_order :: "method_name list" where
  "compileFunctions_order =
     [CompileIamRole, CompileStateMachines, CompileActivities, CompileAlarms,
      CompileNotifications]"

definition http_chain_order :: "method_name list" where
  "http_chain_order =
     [CompileRestApi, CompileResources, CompileMethods, CompileRequestValidators,
      CompileAuthorizers, CompileHttpLambdaPermissions, CompileCors, CompileHttpIamRole,
      CompileDeployment, CompileApiKeys, CompileUsagePlan, CompileUsagePlanKeys]"

definition compileEvents_order :: "bool \<Rightarrow> method_name list" where
  "compileEvents_order with_http =
     [CompileScheduledEvents, HttpValidate] @ (if with_http then http_chain_order else [])
       @ [CompileCloudWatchEventEvents]"

text \<open>
  The specification words a chain as: the compilers are invoked in order, each on what
  the previous one left, and the run fails fast at the first error. \<open>apply_compilers\<close>
  is that reading, on the plugin object alone; it is compared below with the hooks.
\<close>

fun apply_compilers ::
  "('e, 'v, 's) compilers \<Rightarrow> method_name list \<Rightarrow> 'v option \<Rightarrow> 's \<Rightarrow>
   ('e failure + 'v option) \<times> 's" where
  "apply_compilers this [] v s = (Inr v, s)"
| "apply_compilers this (n # ns) v s =
     (case this n v s of
        (Inl e, s') \<Rightarrow> (Inl e, s')
      | (Inr v', s') \<Rightarrow> apply_compilers this ns v' s')"

text \<open>
  \<open>called_before a b ns\<close>: in the sequence \<open>ns\<close> of calls, \<open>a\<close> is called before the first
  call of \<open>b\<close> (or \<open>a\<close> is called and \<open>b\<close> never is).
\<close>

definition called_before :: "method_name \<Rightarrow> method_name \<Rightarrow> method_name list \<Rightarrow> bool" where
  "called_before a b ns = (a \<in> set (takeWhile (\<lambda>n. n \<noteq> b) ns))"

subsection \<open>Name resolution\<close>

text \<open>
  Modelled from the spec: the NamingContext; the module \<^verbatim>\<open>./naming\<close> that the constructor
  mixes in is not among the sources. The specification has it "derived, read-only per
  compilation: service name, stage, region", "never mutated after construction"; it is
  read off the fields that the constructor sets.
\<close>

record 'n naming_context =
  context_service :: 'n
  context_stage :: string
  context_region :: "string option"

definition naming_context_of :: "('n, 'api, 'val, 'x) plugin \<Rightarrow> 'n naming_context" where
  "naming_context_of this =
     \<lparr>context_service = service this, context_stage = stage this,
      context_region = region this\<rparr>"

datatype naming_error = NamingError

text \<open>
  Modelled from the spec: the Naming Resolver, \<^verbatim>\<open>resolveName(stateMachineName,
  resourceKind, index?) -> identifier\<close>, missing with \<^verbatim>\<open>./naming\<close>. The specification:
  "every generated resource identifier is a pure deterministic function of (service,
  stage, state-machine name, resource kind, disambiguating index)", and the resolver
  "signals a NamingError if stateMachineName is empty or contains characters invalid
  for the target identifier charset". The function of the tuple and the charset are not
  given; they are the parameters \<open>identifier\<close> and \<open>valid\<close>.
\<close>

definition resolveName ::
  "('n \<Rightarrow> string \<Rightarrow> string \<Rightarrow> 'k \<Rightarrow> nat option \<Rightarrow> string) \<Rightarrow> (char \<Rightarrow> bool) \<Rightarrow>
   ('n, 'api, 'val, 'x) plugin \<Rightarrow> string \<Rightarrow> 'k \<Rightarrow> nat option \<Rightarrow> naming_error + string" where
  "resolveName identifier valid this stateMachineName resourceKind idx =
     (if stateMachineName = [] \<or> \<not> list_all valid stateMachineName then Inl NamingError
      else Inr (identifier (context_service (naming_context_of this))
                  (context_stage (naming_context_of this)) stateMachineName resourceKind idx))"

text \<open>The compilers, each handed the plugin object with its stage set to \<open>c\<close>.\<close>

definition at_stage ::
  "string \<Rightarrow> ('e, 'v, ('n, 'api, 'val, 'x) plugin) compilers \<Rightarrow>
   ('e, 'v, ('n, 'api, 'val, 'x) plugin) compilers" where
  "at_stage c this n v s = this n v (s\<lparr>stage := c\<rparr>)"

subsection \<open>The display, as the specification words it\<close>

text \<open>
  The specification speaks of the Http-bound events of all state machines and of one
  line per such event. \<open>http_bound\<close> collects the \<^verbatim>\<open>http\<close> values of the events, in the
  order of the state machines and of their events; \<open>well_formed\<close> holds of the two
  shapes that carry a method and a path; \<open>endpoint_line\<close> is the line of one binding.
  These are compared below with the loops of \<^verbatim>\<open>display\<close>.
\<close>

fun well_formed :: "http_binding \<Rightarrow> bool" where
  "well_formed (HttpObject m p) = (m \<noteq> None \<and> p \<noteq> None)"
| "well_formed (HttpString s) = (2 \<le> length (js_split (CHR '' '') s))"

fun binding_method :: "http_binding \<Rightarrow> string" where
  "binding_method (HttpObject m p) = (case m of None \<Rightarrow> [] | Some x \<Rightarrow> x)"
| "binding_method (HttpString s) = (case js_split (CHR '' '') s of [] \<Rightarrow> [] | m # _ \<Rightarrow> m)"

fun binding_path :: "http_binding \<Rightarrow> string" where
  "binding_path (HttpObject m p) = (case p of None \<Rightarrow> [] | Some x \<Rightarrow> x)"
| "binding_path (HttpString s) = (case js_split (CHR '' '') s of _ # p # _ \<Rightarrow> p | _ \<Rightarrow> [])"

definition endpoint_line :: "(string \<Rightarrow> string) \<Rightarrow> string \<Rightarrow> http_binding \<Rightarrow> string" where
  "endpoint_line unicode endpoint h =
     ''\<newline>  '' @ toUpperCase unicode (binding_method h) @ '' - '' @ endpoint
       @ display_path (binding_path h)"

definition http_bound_events :: "event list \<Rightarrow> http_binding list" where
  "http_bound_events evs = concat (map (\<lambda>ev. case http ev of None \<Rightarrow> [] | Some h \<Rightarrow> [h])
                                    (filter (\<lambda>ev. truthy (http ev)) evs))"

definition http_bound :: "yamlParser \<Rightarrow> http_binding list" where
  "http_bound this =
     (if isStateMachines this
      then concat (map (\<lambda>name. case events (getStateMachine this name) of
                                 None \<Rightarrow> [] | Some evs \<Rightarrow> http_bound_events evs)
                       (getAllStateMachines this))
      else [])"

text \<open>A configuration of one state machine with one event, bound to http by \<open>h\<close>.\<close>

definition one_binding :: "string \<Rightarrow> http_binding \<Rightarrow> yamlParser" where
  "one_binding name h =
     \<lparr> isStateMachines = True, getAllStateMachines = [name],
       getStateMachine = (\<lambda>n. \<lparr>events = Some [\<lparr>http = Some h\<rparr>]\<rparr>) \<rparr>"

text \<open>The letters that \<^verbatim>\<open>toUpperCase\<close> changes on ASCII text, and what they become.\<close>

definition small_letters :: string where
  "small_letters = ''abcdefghijklmnopqrstuvwxyz''"

definition capital_letters :: string where
  "capital_letters = ''ABCDEFGHIJKLMNOPQRSTUVWXYZ''"

subsection \<open>Concrete inputs\<close>

text \<open>Compilers that all fulfil, and a fresh world around a plugin object.\<close>

definition all_fulfil :: "(unit, unit, 's) compilers" where
  "all_fulfil n v s = (Inr v, s)"

definition world0 :: "'s \<Rightarrow> (unit, 's) world" where
  "world0 s = \<lparr>calls = [], exitCode = 0, console = [], self = s\<rparr>"

text \<open>
  A plugin object constructed for a service without a stage, an \<^verbatim>\<open>httpValidate\<close> that
  finds one http event and one that finds none, and compilers of which one rejects.
\<close>

definition plugin0 :: "(string, unit, (unit, unit) validated_http, unit) plugin" where
  "plugin0 =
     constructor \<lparr>service_service = ''orders'', provider_region = Some ''eu-west-1'',
                  provider_stage = None\<rparr> None None ()"

definition one_http_event ::
  "'s \<Rightarrow> (unit failure + (unit, unit) validated_http) \<times> 's" where
  "one_http_event s = (Inr \<lparr>validated_events = [()], validated_other = ()\<rparr>, s)"

definition no_http_event ::
  "'s \<Rightarrow> (unit failure + (unit, unit) validated_http) \<times> 's" where
  "no_http_event s = (Inr \<lparr>validated_events = [], validated_other = ()\<rparr>, s)"

definition fails_at :: "method_name \<Rightarrow> (unit, unit, 's) compilers" where
  "fails_at n0 n v s = (if n = n0 then (Inl (Rejected ()), s) else (Inr v, s))"

text \<open>
  A plugin object that keeps a list of what was emitted, and compilers that each emit
  an entry with their name and the stage they find on the plugin object; a naming
  scheme \<^verbatim>\<open>service-stage-name\<close> over names without spaces.
\<close>

definition plugin1 ::
  "(string, unit, (unit, unit) validated_http, (method_name \<times> string) list) plugin" where
  "plugin1 =
     constructor \<lparr>service_service = ''orders'', provider_region = Some ''eu-west-1'',
                  provider_stage = None\<rparr> None None []"

definition emitting ::
  "(unit, unit, (string, unit, (unit, unit) validated_http, (method_name \<times> string) list) plugin)
     compilers" where
  "emitting n v s = (Inr v, s\<lparr>plugin_rest := plugin_rest s @ [(n, stage s)]\<rparr>)"

definition identifier0 :: "string \<Rightarrow> string \<Rightarrow> string \<Rightarrow> unit \<Rightarrow> nat option \<Rightarrow> string" where
  "identifier0 svc stg name kind idx = svc @ ''-'' @ stg @ ''-'' @ name"

definition valid0 :: "char \<Rightarrow> bool" where
  "valid0 c = (c \<noteq> CHR '' '')"

text \<open>
  An execution client that reports a given status and settles the history request in
  a given way; \<^verbatim>\<open>_.merge\<close> on objects whose properties are strings (a property of the
  details replaces the value of the property of that name in the result, or is added
  after the others; merging \<^verbatim>\<open>undefined\<close> leaves the result); a history whose last event
  carries failure details.
\<close>

fun assign_property ::
  "string \<Rightarrow> string \<Rightarrow> (string \<times> string) list \<Rightarrow> (string \<times> string) list" where
  "assign_property k v [] = [(k, v)]"
| "assign_property k v ((k', v') # ps) =
     (if k' = k then (k, v) # ps else (k', v') # assign_property k v ps)"

fun merge_properties ::
  "(string \<times> string) list execution \<Rightarrow> (string \<times> string) list \<Rightarrow>
   (string \<times> string) list execution" where
  "merge_properties result [] = result"
| "merge_properties result ((k, v) # ps) =
     merge_properties
       (if k = ''status'' then result\<lparr>status := v\<rparr>
        else result\<lparr>execution_rest := assign_property k v (execution_rest result)\<rparr>) ps"

definition merge_details ::
  "(string \<times> string) list execution \<Rightarrow> (string \<times> string) list option \<Rightarrow>
   (string \<times> string) list execution" where
  "merge_details result details =
     (case details of None \<Rightarrow> result | Some d \<Rightarrow> merge_properties result d)"

definition client0 ::
  "string \<Rightarrow> (unit failure + (string \<times> string) list execution_history) \<Rightarrow>
   (unit, unit, string, string, (string \<times> string) list, (string \<times> string) list)
     execution_client" where
  "client0 st history =
     \<lparr> getStateMachineArn = (\<lambda>s. (Inr ''arn:machine'', s)),
       startExecution = (\<lambda>arn s. (Inr (arn @ '':run''), s)),
       describeExecution =
         (\<lambda>executionArn s.
            (Inr \<lparr>status = st, execution_rest = [(''executionArn'', executionArn)]\<rparr>, s)),
       getExecutionHistory = (\<lambda>s. (history, s)) \<rparr>"

definition failed_history :: "(string \<times> string) list execution_history" where
  "failed_history =
     \<lparr>history_events =
        [\<lparr>executionFailedEventDetails = None\<rparr>,
         \<lparr>executionFailedEventDetails = Some [(''error'', ''Boom''), (''cause'', ''bad input'')]\<rparr>]\<rparr>"

definition invoke_world0 :: "((string \<times> string) list execution, unit) world" where
  "invoke_world0 = \<lparr>calls = [], exitCode = 0, console = [], self = ()\<rparr>"

text \<open>
  Styling that leaves the text as it is, a configuration of two state machines, one
  with two http events of the two shapes and an event of another kind, and the world
  after a deployment to a known endpoint.
\<close>

definition chalk0 :: chalk where
  "chalk0 = \<lparr>hex_fd5750 = (\<lambda>s. s), grey = (\<lambda>s. s), yellow_underline = (\<lambda>s. s),
             yellow = (\<lambda>s. s)\<rparr>"

definition yaml0 :: yamlParser where
  "yaml0 =
     \<lparr> isStateMachines = True,
       getAllStateMachines = [''OrderFlow'', ''Audit''],
       getStateMachine = (\<lambda>name.
         if name = ''OrderFlow''
         then \<lparr>events = Some [\<lparr>http = Some (HttpObject (Some ''post'') (Some ''orders''))\<rparr>,
                              \<lparr>http = None\<rparr>,
                              \<lparr>http = Some (HttpString ''get /orders//{id}/'')\<rparr>]\<rparr>
         else \<lparr>events = None\<rparr>) \<rparr>"

text \<open>
  A configuration with a binding that has a method and no path, and a case mapping for
  text beyond ASCII that is never consulted on the ASCII text of these inputs.
\<close>

definition bad_yaml :: yamlParser where
  "bad_yaml =
     \<lparr> isStateMachines = True,
       getAllStateMachines = [''OrderFlow''],
       getStateMachine = (\<lambda>name.
         \<lparr>events = Some [\<lparr>http = Some (HttpObject (Some ''get'') (Some ''a''))\<rparr>,
                          \<lparr>http = Some (HttpString ''post'')\<rparr>]\<rparr>) \<rparr>"

definition unicode0 :: "string \<Rightarrow> string" where
  "unicode0 s = s"

definition deployed0 ::
  "(unit, (string, unit, (unit, unit) validated_http, unit) plugin) world" where
  "deployed0 = world0 (plugin0\<lparr>endpointInfo := Some ''https://api.test/dev''\<rparr>)"


section \<open>Properties\<close>

subsection \<open>Promise chains\<close>

lemma package_compileFunctions_run_chain:
  "package_compileFunctions this = run_chain this compileFunctions_order"
  by (simp add: package_compileFunctions_def run_chain_def compileFunctions_order_def)

lemma http_chain_run_chain: "http_chain this = run_chain this http_chain_order"
  by (simp add: http_chain_def run_chain_def http_chain_order_def)

lemma run_chain_snoc:
  "run_chain this (ns @ [n]) = promise_then (run_chain this ns) (\<lambda>v. call_method n (this n v))"
  by (simp add: run_chain_def)

lemma run_chain_Nil: "run_chain this [] w = (Inr None, w)"
  by (simp add: run_chain_def BbPromise_bind_def)

lemma call_method_calls:
  "call_method n m w = (r, w') \<Longrightarrow> calls w' = calls w @ [(n, fulfilled r)]"
  by (auto simp: call_method_def split: prod.splits)

lemma run_chain_calls:
  "run_chain this ns w = (r, w') \<Longrightarrow>
   \<exists>tr. calls w' = calls w @ tr \<and> prefix (map fst tr) ns \<and> list_all snd (butlast tr) \<and>
        (if fulfilled r then map fst tr = ns \<and> list_all snd tr
         else tr \<noteq> [] \<and> \<not> snd (last tr))"
proof (induction ns arbitrary: r w' rule: rev_induct)
  case Nil
  then show ?case by (auto simp: run_chain_Nil)
next
  case (snoc n ns)
  obtain r1 w1 where p: "run_chain this ns w = (r1, w1)" by (cases "run_chain this ns w")
  from snoc.IH[OF p] obtain tr where tr: "calls w1 = calls w @ tr" "prefix (map fst tr) ns"
    "list_all snd (butlast tr)"
    "if fulfilled r1 then map fst tr = ns \<and> list_all snd tr else tr \<noteq> [] \<and> \<not> snd (last tr)"
    by blast
  show ?case
  proof (cases r1)
    case (Inl e)
    with snoc.prems p have "r = Inl e" "w' = w1"
      by (simp_all add: run_chain_snoc promise_then_def)
    with tr Inl show ?thesis by (intro exI[of _ tr]) auto
  next
    case (Inr v)
    with snoc.prems p have c: "call_method n (this n v) w1 = (r, w')"
      by (simp add: run_chain_snoc promise_then_def)
    from call_method_calls[OF c] tr Inr
    show ?thesis
      by (intro exI[of _ "tr @ [(n, fulfilled r)]"]) (auto simp: butlast_append)
  qed
qed

lemma call_method_self: "call_method n m w = (r, w') \<Longrightarrow> (r, self w') = m (self w)"
  by (auto simp: call_method_def split: prod.splits)

lemma apply_compilers_snoc:
  "apply_compilers this (ns @ [n]) v s =
     (case apply_compilers this ns v s of
        (Inl e, s') \<Rightarrow> (Inl e, s')
      | (Inr v', s') \<Rightarrow> this n v' s')"
  by (induction ns arbitrary: v s) (auto split: prod.splits sum.splits)

lemma run_chain_apply:
  "run_chain this ns w = (r, w') \<Longrightarrow> (r, self w') = apply_compilers this ns None (self w)"
proof (induction ns arbitrary: r w' rule: rev_induct)
  case Nil
  then show ?case by (auto simp: run_chain_Nil)
next
  case (snoc n ns)
  obtain r1 w1 where p: "run_chain this ns w = (r1, w1)" by (cases "run_chain this ns w")
  from snoc.IH[OF p] have ih: "apply_compilers this ns None (self w) = (r1, self w1)"
    by simp
  show ?case
  proof (cases r1)
    case (Inl e)
    with snoc.prems p have "r = Inl e" "w' = w1"
      by (simp_all add: run_chain_snoc promise_then_def)
    with ih Inl show ?thesis by (simp add: apply_compilers_snoc)
  next
    case (Inr v)
    with snoc.prems p have "call_method n (this n v) w1 = (r, w')"
      by (simp add: run_chain_snoc promise_then_def)
    from call_method_self[OF this] ih Inr show ?thesis
      by (simp add: apply_compilers_snoc)
  qed
qed

lemma stage_plugin1: "stage plugin1 = ''ap-southeast-2''"
  by (simp add: plugin1_def constructor_def)

lemma plugin_rest_plugin1: "plugin_rest plugin1 = []"
  by (simp add: plugin1_def constructor_def)

subsection \<open>The order of the function compilers\<close>

text \<open>
  Claim C5. In every run of \<^verbatim>\<open>package:compileFunctions\<close> the compilers are invoked in
  the fixed order IAM role, state machines, activities, alarms, notifications: the
  methods called, in the order of the calls, start with the IAM role compiler and are
  an initial part of that list, and they are the whole list when the hook fulfils; and
  what the hook settles with and leaves on the plugin object is what these five
  compilers make of it when applied in that order, each to the value and the object
  that the one before left, up to the first that fails.
\<close>

theorem compileFunctions_fixed_order:
  assumes "package_compileFunctions this w = (r, w')" and "calls w = []"
  shows "prefix [CompileIamRole] (map fst (calls w')) \<and>
         prefix (map fst (calls w'))
           [CompileIamRole, CompileStateMachines, CompileActivities, CompileAlarms,
            CompileNotifications] \<and>
         (fulfilled r \<longrightarrow>
            map fst (calls w') =
              [CompileIamRole, CompileStateMachines, CompileActivities, CompileAlarms,
               CompileNotifications]) \<and>
         (r, self w') =
           apply_compilers this
             [CompileIamRole, CompileStateMachines, CompileActivities, CompileAlarms,
              CompileNotifications] None (self w)"
proof -
  from assms(1) have chain: "run_chain this compileFunctions_order w = (r, w')"
    by (simp add: package_compileFunctions_run_chain)
  from run_chain_apply[OF chain] have applied: "(r, self w') =
      apply_compilers this
        [CompileIamRole, CompileStateMachines, CompileActivities, CompileAlarms,
         CompileNotifications] None (self w)"
    by (simp add: compileFunctions_order_def)
  from run_chain_calls[OF chain] assms(2)
  obtain tr where tr: "calls w' = tr" "prefix (map fst tr) compileFunctions_order"
    "if fulfilled r then map fst tr = compileFunctions_order \<and> list_all snd tr
     else tr \<noteq> [] \<and> \<not> snd (last tr)"
    by auto
  have "map fst tr \<noteq> []"
    using tr(3) by (auto simp: compileFunctions_order_def split: if_splits)
  with tr(2) have "prefix [CompileIamRole] (map fst tr)"
    by (cases "map fst tr") (auto simp: compileFunctions_order_def)
  with tr applied show ?thesis
    by (auto simp: compileFunctions_order_def)
qed

theorem compileFunctions_fixed_order_witness:
  "calls (world0 plugin1) = [] \<and>
   package_compileFunctions emitting (world0 plugin1) =
     (Inr None,
      (world0 plugin1)\<lparr>
        calls := [(CompileIamRole, True), (CompileStateMachines, True),
                  (CompileActivities, True), (CompileAlarms, True),
                  (CompileNotifications, True)],
        self := plugin1\<lparr>plugin_rest :=
          [(CompileIamRole, ''ap-southeast-2''), (CompileStateMachines, ''ap-southeast-2''),
           (CompileActivities, ''ap-southeast-2''), (CompileAlarms, ''ap-southeast-2''),
           (CompileNotifications, ''ap-southeast-2'')]\<rparr>\<rparr>) \<and>
   apply_compilers emitting
     [CompileIamRole, CompileStateMachines, CompileActivities, CompileAlarms,
      CompileNotifications] None plugin1 =
     (Inr None,
      plugin1\<lparr>plugin_rest :=
        [(CompileIamRole, ''ap-southeast-2''), (CompileStateMachines, ''ap-southeast-2''),
         (CompileActivities, ''ap-southeast-2''), (CompileAlarms, ''ap-southeast-2''),
         (CompileNotifications, ''ap-southeast-2'')]\<rparr>)"
proof -
  have run: "package_compileFunctions emitting (world0 plugin1) =
     (Inr None,
      (world0 plugin1)\<lparr>
        calls := [(CompileIamRole, True), (CompileStateMachines, True),
                  (CompileActivities, True), (CompileAlarms, True),
                  (CompileNotifications, True)],
        self := plugin1\<lparr>plugin_rest :=
          [(CompileIamRole, ''ap-southeast-2''), (CompileStateMachines, ''ap-southeast-2''),
           (CompileActivities, ''ap-southeast-2''), (CompileAlarms, ''ap-southeast-2''),
           (CompileNotifications, ''ap-southeast-2'')]\<rparr>\<rparr>)"
    by (simp add: package_compileFunctions_def promise_then_def BbPromise_bind_def
        call_method_def emitting_def world0_def stage_plugin1 plugin_rest_plugin1)
  have start: "calls (world0 plugin1) = []"
    by (simp add: world0_def)
  have "self (world0 plugin1) = plugin1"
    by (simp add: world0_def)
  with compileFunctions_fixed_order[OF run start] run start show ?thesis
    by simp
qed

subsection \<open>The event hook, unfolded\<close>

lemma package_compileEvents_unfold:
  "package_compileEvents this httpValidate w =
     (case this CompileScheduledEvents None (self w) of
        (Inl e, s1) \<Rightarrow>
          (Inl e, w\<lparr>calls := calls w @ [(CompileScheduledEvents, False)], self := s1\<rparr>)
      | (Inr v, s1) \<Rightarrow>
          (case httpValidate s1 of
             (Inl e, s2) \<Rightarrow>
               (Inl e, w\<lparr>calls := calls w @ [(CompileScheduledEvents, True), (HttpValidate, False)],
                         self := s2\<rparr>)
           | (Inr val, s2) \<Rightarrow>
               (let w2 = w\<lparr>calls := calls w @ [(CompileScheduledEvents, True), (HttpValidate, True)],
                            self := s2\<lparr>pluginhttpValidated := Some val, validated := Some val\<rparr>\<rparr>
                in if validated_events val = []
                   then call_method CompileCloudWatchEventEvents
                          (this CompileCloudWatchEventEvents None) w2
                   else promise_then (http_chain this)
                          (\<lambda>_. call_method CompileCloudWatchEventEvents
                                 (this CompileCloudWatchEventEvents None)) w2)))"
  by (simp add: package_compileEvents_def promise_then_def call_method_def
      BbPromise_resolve_def Let_def split: prod.splits sum.splits)

lemma http_then_cloudwatch_calls:
  assumes "promise_then (http_chain this)
             (\<lambda>_. call_method CompileCloudWatchEventEvents m) w = (r, w')"
  shows "\<exists>tr. calls w' = calls w @ tr \<and>
           prefix [CompileRestApi] (map fst tr) \<and>
           prefix (map fst tr) (http_chain_order @ [CompileCloudWatchEventEvents]) \<and>
           list_all snd (butlast tr) \<and>
           (if fulfilled r
            then map fst tr = http_chain_order @ [CompileCloudWatchEventEvents] \<and> list_all snd tr
            else tr \<noteq> [] \<and> \<not> snd (last tr))"
proof -
  obtain r1 w1 where p: "run_chain this http_chain_order w = (r1, w1)"
    by (cases "run_chain this http_chain_order w")
  from run_chain_calls[OF p] obtain tr where tr: "calls w1 = calls w @ tr"
    "prefix (map fst tr) http_chain_order" "list_all snd (butlast tr)"
    "if fulfilled r1 then map fst tr = http_chain_order \<and> list_all snd tr
     else tr \<noteq> [] \<and> \<not> snd (last tr)"
    by blast
  have ne: "map fst tr \<noteq> []"
    using tr(4) by (auto simp: http_chain_order_def split: if_splits)
  with tr(2) have first: "prefix [CompileRestApi] (map fst tr)"
    by (cases "map fst tr") (auto simp: http_chain_order_def)
  show ?thesis
  proof (cases r1)
    case (Inl e)
    with assms p have "r = Inl e" "w' = w1"
      by (simp_all add: http_chain_run_chain promise_then_def)
    with tr Inl first show ?thesis
      by (intro exI[of _ tr]) auto
  next
    case (Inr v)
    with assms p have c: "call_method CompileCloudWatchEventEvents m w1 = (r, w')"
      by (simp add: http_chain_run_chain promise_then_def)
    from call_method_calls[OF c] tr Inr first ne
    show ?thesis
      by (intro exI[of _ "tr @ [(CompileCloudWatchEventEvents, fulfilled r)]"])
         (auto simp: butlast_append)
  qed
qed

lemma http_then_cloudwatch_apply:
  assumes "promise_then (http_chain this)
             (\<lambda>_. call_method CompileCloudWatchEventEvents m) w = (r, w')"
  shows "(r, self w') =
           (case apply_compilers this http_chain_order None (self w) of
              (Inl e, s) \<Rightarrow> (Inl e, s)
            | (Inr _, s) \<Rightarrow> m s)"
proof -
  obtain r1 w1 where p: "run_chain this http_chain_order w = (r1, w1)"
    by (cases "run_chain this http_chain_order w")
  from run_chain_apply[OF p]
  have ap: "apply_compilers this http_chain_order None (self w) = (r1, self w1)"
    by simp
  show ?thesis
  proof (cases r1)
    case (Inl e)
    with assms p have "r = Inl e" "w' = w1"
      by (simp_all add: http_chain_run_chain promise_then_def)
    with ap Inl show ?thesis by simp
  next
    case (Inr v)
    with assms p have "call_method CompileCloudWatchEventEvents m w1 = (r, w')"
      by (simp add: http_chain_run_chain promise_then_def)
    from call_method_self[OF this] ap Inr show ?thesis by simp
  qed
qed

lemma compileEvents_calls:
  assumes "package_compileEvents this httpValidate w = (r, w')"
  shows "\<exists>tr b. calls w' = calls w @ tr \<and>
           prefix [CompileScheduledEvents] (map fst tr) \<and>
           prefix (map fst tr) (compileEvents_order b) \<and>
           list_all snd (butlast tr) \<and>
           (if fulfilled r then map fst tr = compileEvents_order b \<and> list_all snd tr
            else tr \<noteq> [] \<and> \<not> snd (last tr))"
proof -
  obtain r0 s1 where s: "this CompileScheduledEvents None (self w) = (r0, s1)"
    by (cases "this CompileScheduledEvents None (self w)")
  show ?thesis
  proof (cases r0)
    case (Inl e)
    with assms s show ?thesis
      by (intro exI[of _ "[(CompileScheduledEvents, False)]"] exI[of _ False])
         (auto simp: package_compileEvents_unfold compileEvents_order_def)
  next
    case v: (Inr v)
    obtain r1 s2 where h: "httpValidate s1 = (r1, s2)" by (cases "httpValidate s1")
    show ?thesis
    proof (cases r1)
      case (Inl e)
      with assms s v h show ?thesis
        by (intro exI[of _ "[(CompileScheduledEvents, True), (HttpValidate, False)]"]
              exI[of _ False])
           (auto simp: package_compileEvents_unfold compileEvents_order_def)
    next
      case (Inr val)
      define w2 where "w2 = w\<lparr>calls := calls w @ [(CompileScheduledEvents, True), (HttpValidate, True)],
                            self := s2\<lparr>pluginhttpValidated := Some val, validated := Some val\<rparr>\<rparr>"
      have cw2: "calls w2 = calls w @ [(CompileScheduledEvents, True), (HttpValidate, True)]"
        by (simp add: w2_def)
      show ?thesis
      proof (cases "validated_events val = []")
        case True
        with assms s v h Inr have
          c: "call_method CompileCloudWatchEventEvents (this CompileCloudWatchEventEvents None) w2
              = (r, w')"
          by (simp add: package_compileEvents_unfold w2_def)
        from call_method_calls[OF c] cw2 show ?thesis
          by (intro exI[of _ "[(CompileScheduledEvents, True), (HttpValidate, True),
                (CompileCloudWatchEventEvents, fulfilled r)]"] exI[of _ False])
             (auto simp: compileEvents_order_def)
      next
        case False
        with assms s v h Inr have
          c: "promise_then (http_chain this)
                (\<lambda>_. call_method CompileCloudWatchEventEvents
                       (this CompileCloudWatchEventEvents None)) w2 = (r, w')"
          by (simp add: package_compileEvents_unfold w2_def)
        from http_then_cloudwatch_calls[OF c] obtain tr where tr:
          "calls w' = calls w2 @ tr"
          "prefix (map fst tr) (http_chain_order @ [CompileCloudWatchEventEvents])"
          "list_all snd (butlast tr)"
          "if fulfilled r
            then map fst tr = http_chain_order @ [CompileCloudWatchEventEvents] \<and> list_all snd tr
            else tr \<noteq> [] \<and> \<not> snd (last tr)"
          by blast
        have ne: "tr \<noteq> []" using tr(4) by (auto split: if_splits)
        with tr cw2 show ?thesis
          by (intro exI[of _ "[(CompileScheduledEvents, True), (HttpValidate, True)] @ tr"]
                exI[of _ True])
             (auto simp: compileEvents_order_def butlast_append)
      qed
    qed
  qed
qed

subsection \<open>Failure aborts the chain\<close>

text \<open>
  Claim C4. When a compiler of a chain fails, no later one of that chain is called: in
  a run of \<^verbatim>\<open>package:compileFunctions\<close> and in a run of \<^verbatim>\<open>package:compileEvents\<close>, every
  call but the last has fulfilled; a hook that fulfils has called all its methods, all
  fulfilling; a hook that rejects has a failed call as its last call.
\<close>

theorem compile_chain_aborts_at_first_failure:
  assumes "calls w = []" and "calls u = []"
  shows "(package_compileFunctions this w = (r, w') \<longrightarrow>
            list_all snd (butlast (calls w')) \<and>
            (if fulfilled r
             then list_all snd (calls w') \<and>
                  map fst (calls w') =
                    [CompileIamRole, CompileStateMachines, CompileActivities, CompileAlarms,
                     CompileNotifications]
             else calls w' \<noteq> [] \<and> \<not> snd (last (calls w')))) \<and>
         (package_compileEvents that httpValidate u = (q, u') \<longrightarrow>
            list_all snd (butlast (calls u')) \<and>
            (if fulfilled q
             then list_all snd (calls u') \<and>
                  (map fst (calls u') =
                     [CompileScheduledEvents, HttpValidate, CompileCloudWatchEventEvents] \<or>
                   map fst (calls u') =
                     [CompileScheduledEvents, HttpValidate, CompileRestApi, CompileResources,
                      CompileMethods, CompileRequestValidators, CompileAuthorizers,
                      CompileHttpLambdaPermissions, CompileCors, CompileHttpIamRole,
                      CompileDeployment, CompileApiKeys, CompileUsagePlan, CompileUsagePlanKeys,
                      CompileCloudWatchEventEvents])
             else calls u' \<noteq> [] \<and> \<not> snd (last (calls u'))))"
proof (intro conjI impI)
  assume "package_compileFunctions this w = (r, w')"
  then have "run_chain this compileFunctions_order w = (r, w')"
    by (simp add: package_compileFunctions_run_chain)
  from run_chain_calls[OF this] assms(1)
  show "list_all snd (butlast (calls w'))"
    and "if fulfilled r
         then list_all snd (calls w') \<and>
              map fst (calls w') =
                [CompileIamRole, CompileStateMachines, CompileActivities, CompileAlarms,
                 CompileNotifications]
         else calls w' \<noteq> [] \<and> \<not> snd (last (calls w'))"
    by (auto simp: compileFunctions_order_def split: if_splits)
next
  assume "package_compileEvents that httpValidate u = (q, u')"
  from compileEvents_calls[OF this] assms(2)
  obtain tr b where tr: "calls u' = tr" "list_all snd (butlast tr)"
    "if fulfilled q then map fst tr = compileEvents_order b \<and> list_all snd tr
     else tr \<noteq> [] \<and> \<not> snd (last tr)"
    by auto
  from tr show "list_all snd (butlast (calls u'))"
    by simp
  from tr show "if fulfilled q
         then list_all snd (calls u') \<and>
              (map fst (calls u') =
                 [CompileScheduledEvents, HttpValidate, CompileCloudWatchEventEvents] \<or>
               map fst (calls u') =
                 [CompileScheduledEvents, HttpValidate, CompileRestApi, CompileResources,
                  CompileMethods, CompileRequestValidators, CompileAuthorizers,
                  CompileHttpLambdaPermissions, CompileCors, CompileHttpIamRole,
                  CompileDeployment, CompileApiKeys, CompileUsagePlan, CompileUsagePlanKeys,
                  CompileCloudWatchEventEvents])
         else calls u' \<noteq> [] \<and> \<not> snd (last (calls u'))"
    by (cases b) (auto simp: compileEvents_order_def http_chain_order_def split: if_splits)
qed

theorem compile_chain_aborts_at_first_failure_witness:
  "calls (world0 () :: (unit, unit) world) = [] \<and>
   calls (world0 plugin0 :: (unit, _) world) = [] \<and>
   package_compileFunctions (fails_at CompileActivities) (world0 ()) =
     (Inl (Rejected ()),
      (world0 ())\<lparr>calls := [(CompileIamRole, True), (CompileStateMachines, True),
                             (CompileActivities, False)]\<rparr>) \<and>
   package_compileEvents (fails_at CompileMethods) one_http_event (world0 plugin0) =
     (Inl (Rejected ()),
      (world0 plugin0)\<lparr>calls := [(CompileScheduledEvents, True), (HttpValidate, True),
                                  (CompileRestApi, True), (CompileResources, True),
                                  (CompileMethods, False)],
                        self := plugin0\<lparr>pluginhttpValidated :=
                                   Some \<lparr>validated_events = [()], validated_other = ()\<rparr>,
                                 validated :=
                                   Some \<lparr>validated_events = [()], validated_other = ()\<rparr>\<rparr>\<rparr>) \<and>
   \<not> snd (last (calls (snd (package_compileFunctions (fails_at CompileActivities)
                               (world0 ()) :: _ \<times> (unit, unit) world)))) \<and>
   \<not> snd (last (calls (snd (package_compileEvents (fails_at CompileMethods) one_http_event
                               (world0 plugin0) :: _ \<times> (unit, _) world))))"
proof -
  have w: "calls (world0 () :: (unit, unit) world) = []"
    and u: "calls (world0 plugin0 :: (unit, _) world) = []"
    by (simp_all add: world0_def)
  have f: "package_compileFunctions (fails_at CompileActivities) (world0 ()) =
     (Inl (Rejected ()),
      (world0 ())\<lparr>calls := [(CompileIamRole, True), (CompileStateMachines, True),
                             (CompileActivities, False)]\<rparr>)"
    by (simp add: package_compileFunctions_def promise_then_def BbPromise_bind_def
        call_method_def fails_at_def world0_def)
  have e: "package_compileEvents (fails_at CompileMethods) one_http_event (world0 plugin0) =
     (Inl (Rejected ()),
      (world0 plugin0)\<lparr>calls := [(CompileScheduledEvents, True), (HttpValidate, True),
                                  (CompileRestApi, True), (CompileResources, True),
                                  (CompileMethods, False)],
                        self := plugin0\<lparr>pluginhttpValidated :=
                                   Some \<lparr>validated_events = [()], validated_other = ()\<rparr>,
                                 validated :=
                                   Some \<lparr>validated_events = [()], validated_other = ()\<rparr>\<rparr>\<rparr>)"
    by (simp add: package_compileEvents_unfold fails_at_def one_http_event_def world0_def
        http_chain_def promise_then_def BbPromise_bind_def call_method_def)
  note t = compile_chain_aborts_at_first_failure[OF w u]
  from t[THEN conjunct1, rule_format, OF f] t[THEN conjunct2, rule_format, OF e] w u f e
  show ?thesis by simp
qed

subsection \<open>The order of the event compilers\<close>

lemma compileEvents_with_http_run:
  "map fst (calls (snd (package_compileEvents all_fulfil one_http_event (world0 plugin0)))) =
     [CompileScheduledEvents, HttpValidate, CompileRestApi, CompileResources, CompileMethods,
      CompileRequestValidators, CompileAuthorizers, CompileHttpLambdaPermissions, CompileCors,
      CompileHttpIamRole, CompileDeployment, CompileApiKeys, CompileUsagePlan,
      CompileUsagePlanKeys, CompileCloudWatchEventEvents]"
  by (simp add: package_compileEvents_unfold all_fulfil_def one_http_event_def world0_def
      http_chain_def promise_then_def BbPromise_bind_def call_method_def)

text \<open>
  Claim C2, as stated: the HTTP chain runs before the schedule compiler. In a run where
  \<^verbatim>\<open>httpValidate\<close> finds one event and every method fulfils, the first method of the
  HTTP chain is not called before the schedule compiler; the schedule compiler is
  called before it.
\<close>

theorem http_chain_before_schedule_counterexample:
  "\<not> called_before CompileRestApi CompileScheduledEvents
       (map fst (calls (snd (package_compileEvents all_fulfil one_http_event (world0 plugin0))))) \<and>
   called_before CompileScheduledEvents CompileRestApi
       (map fst (calls (snd (package_compileEvents all_fulfil one_http_event (world0 plugin0)))))"
  by (simp add: compileEvents_with_http_run called_before_def)

text \<open>
  Claim C2, amended. In every run of \<^verbatim>\<open>package:compileEvents\<close> where \<^verbatim>\<open>httpValidate\<close>
  finds an http event, the schedule compiler is called first, then \<^verbatim>\<open>httpValidate\<close>,
  then the HTTP chain from its first method on, and the CloudWatch event compiler only
  after the last method of the HTTP chain: the calls are an initial part of that
  sequence, and the whole of it when the hook fulfils. What the hook settles with and
  leaves on the plugin object is what the twelve compilers of the HTTP chain, applied
  in order to the object left by the schedule compiler and \<^verbatim>\<open>httpValidate\<close> with the
  validation result stored, and then the CloudWatch event compiler make of it.
\<close>

theorem schedule_then_http_chain_then_cloudwatch:
  assumes run: "package_compileEvents this httpValidate w = (r, w')"
    and start: "calls w = []"
    and sched: "this CompileScheduledEvents None (self w) = (Inr v, s1)"
    and val: "httpValidate s1 = (Inr val, s2)"
    and some: "validated_events val \<noteq> []"
  shows "prefix [CompileScheduledEvents, HttpValidate, CompileRestApi] (map fst (calls w')) \<and>
         prefix (map fst (calls w'))
           [CompileScheduledEvents, HttpValidate, CompileRestApi, CompileResources,
            CompileMethods, CompileRequestValidators, CompileAuthorizers,
            CompileHttpLambdaPermissions, CompileCors, CompileHttpIamRole, CompileDeployment,
            CompileApiKeys, CompileUsagePlan, CompileUsagePlanKeys,
            CompileCloudWatchEventEvents] \<and>
         (fulfilled r \<longrightarrow>
            map fst (calls w') =
              [CompileScheduledEvents, HttpValidate, CompileRestApi, CompileResources,
               CompileMethods, CompileRequestValidators, CompileAuthorizers,
               CompileHttpLambdaPermissions, CompileCors, CompileHttpIamRole,
               CompileDeployment, CompileApiKeys, CompileUsagePlan, CompileUsagePlanKeys,
               CompileCloudWatchEventEvents]) \<and>
         (r, self w') =
           (case apply_compilers this
                   [CompileRestApi, CompileResources, CompileMethods, CompileRequestValidators,
                    CompileAuthorizers, CompileHttpLambdaPermissions, CompileCors,
                    CompileHttpIamRole, CompileDeployment, CompileApiKeys, CompileUsagePlan,
                    CompileUsagePlanKeys] None
                   (s2\<lparr>pluginhttpValidated := Some val, validated := Some val\<rparr>) of
              (Inl e, s) \<Rightarrow> (Inl e, s)
            | (Inr _, s) \<Rightarrow> this CompileCloudWatchEventEvents None s)"
proof -
  define w2 where "w2 = w\<lparr>calls := calls w @ [(CompileScheduledEvents, True), (HttpValidate, True)],
                        self := s2\<lparr>pluginhttpValidated := Some val, validated := Some val\<rparr>\<rparr>"
  have cw2: "calls w2 = [(CompileScheduledEvents, True), (HttpValidate, True)]"
    by (simp add: w2_def start)
  from run sched val some have
    c: "promise_then (http_chain this)
          (\<lambda>_. call_method CompileCloudWatchEventEvents
                 (this CompileCloudWatchEventEvents None)) w2 = (r, w')"
    by (simp add: package_compileEvents_unfold w2_def)
  from http_then_cloudwatch_calls[OF c] cw2 obtain tr where tr:
    "calls w' = [(CompileScheduledEvents, True), (HttpValidate, True)] @ tr"
    "prefix [CompileRestApi] (map fst tr)"
    "prefix (map fst tr) (http_chain_order @ [CompileCloudWatchEventEvents])"
    "fulfilled r \<longrightarrow> map fst tr = http_chain_order @ [CompileCloudWatchEventEvents]"
    by (auto split: if_splits)
  from tr(2) have a: "prefix [CompileScheduledEvents, HttpValidate, CompileRestApi] (map fst (calls w'))"
    by (simp add: tr(1))
  from tr(3) have b: "prefix (map fst (calls w'))
      ([CompileScheduledEvents, HttpValidate] @ http_chain_order @ [CompileCloudWatchEventEvents])"
    by (simp add: tr(1))
  from tr(4) have d: "fulfilled r \<longrightarrow> map fst (calls w') =
      [CompileScheduledEvents, HttpValidate] @ http_chain_order @ [CompileCloudWatchEventEvents]"
    by (simp add: tr(1))
  have sw2: "self w2 = s2\<lparr>pluginhttpValidated := Some val, validated := Some val\<rparr>"
    by (simp add: w2_def)
  from http_then_cloudwatch_apply[OF c] have e: "(r, self w') =
      (case apply_compilers this http_chain_order None
              (s2\<lparr>pluginhttpValidated := Some val, validated := Some val\<rparr>) of
         (Inl e, s) \<Rightarrow> (Inl e, s)
       | (Inr _, s) \<Rightarrow> this CompileCloudWatchEventEvents None s)"
    by (simp only: sw2)
  from a b d e show ?thesis
    by (simp add: http_chain_order_def)
qed

theorem schedule_then_http_chain_then_cloudwatch_witness:
  "calls (world0 plugin1) = [] \<and>
   validated_events \<lparr>validated_events = [()], validated_other = ()\<rparr> \<noteq> [] \<and>
   fulfilled (fst (package_compileEvents emitting one_http_event (world0 plugin1))) \<and>
   map fst (calls (snd (package_compileEvents emitting one_http_event (world0 plugin1)))) =
     [CompileScheduledEvents, HttpValidate, CompileRestApi, CompileResources,
      CompileMethods, CompileRequestValidators, CompileAuthorizers,
      CompileHttpLambdaPermissions, CompileCors, CompileHttpIamRole,
      CompileDeployment, CompileApiKeys, CompileUsagePlan, CompileUsagePlanKeys,
      CompileCloudWatchEventEvents] \<and>
   map fst (plugin_rest (self (snd (package_compileEvents emitting one_http_event
                                      (world0 plugin1))))) =
     [CompileScheduledEvents, CompileRestApi, CompileResources,
      CompileMethods, CompileRequestValidators, CompileAuthorizers,
      CompileHttpLambdaPermissions, CompileCors, CompileHttpIamRole,
      CompileDeployment, CompileApiKeys, CompileUsagePlan, CompileUsagePlanKeys,
      CompileCloudWatchEventEvents] \<and>
   (fst (package_compileEvents emitting one_http_event (world0 plugin1)),
    self (snd (package_compileEvents emitting one_http_event (world0 plugin1)))) =
     (case apply_compilers emitting
             [CompileRestApi, CompileResources, CompileMethods, CompileRequestValidators,
              CompileAuthorizers, CompileHttpLambdaPermissions, CompileCors,
              CompileHttpIamRole, CompileDeployment, CompileApiKeys, CompileUsagePlan,
              CompileUsagePlanKeys] None
             (plugin1\<lparr>plugin_rest := [(CompileScheduledEvents, ''ap-southeast-2'')],
                      pluginhttpValidated :=
                        Some \<lparr>validated_events = [()], validated_other = ()\<rparr>,
                      validated :=
                        Some \<lparr>validated_events = [()], validated_other = ()\<rparr>\<rparr>) of
        (Inl e, s) \<Rightarrow> (Inl e, s)
      | (Inr _, s) \<Rightarrow> emitting CompileCloudWatchEventEvents None s)"
proof -
  have run: "package_compileEvents emitting one_http_event (world0 plugin1) =
      (fst (package_compileEvents emitting one_http_event (world0 plugin1)),
       snd (package_compileEvents emitting one_http_event (world0 plugin1)))"
    by simp
  have start: "calls (world0 plugin1) = []"
    by (simp add: world0_def)
  have sched: "emitting CompileScheduledEvents None (self (world0 plugin1)) =
      (Inr None, plugin1\<lparr>plugin_rest := [(CompileScheduledEvents, ''ap-southeast-2'')]\<rparr>)"
    by (simp add: emitting_def world0_def stage_plugin1 plugin_rest_plugin1)
  have val: "one_http_event
        (plugin1\<lparr>plugin_rest := [(CompileScheduledEvents, ''ap-southeast-2'')]\<rparr>) =
      (Inr \<lparr>validated_events = [()], validated_other = ()\<rparr>,
       plugin1\<lparr>plugin_rest := [(CompileScheduledEvents, ''ap-southeast-2'')]\<rparr>)"
    by (simp add: one_http_event_def)
  have some: "validated_events \<lparr>validated_events = [()], validated_other = ()\<rparr> \<noteq> []"
    by simp
  have ok: "fulfilled (fst (package_compileEvents emitting one_http_event (world0 plugin1)))"
    by (simp add: package_compileEvents_unfold emitting_def one_http_event_def world0_def
      http_chain_def promise_then_def BbPromise_bind_def call_method_def)
  have emitted: "map fst (plugin_rest (self (snd (package_compileEvents emitting one_http_event
                                      (world0 plugin1))))) =
     [CompileScheduledEvents, CompileRestApi, CompileResources,
      CompileMethods, CompileRequestValidators, CompileAuthorizers,
      CompileHttpLambdaPermissions, CompileCors, CompileHttpIamRole,
      CompileDeployment, CompileApiKeys, CompileUsagePlan, CompileUsagePlanKeys,
      CompileCloudWatchEventEvents]"
    by (simp add: package_compileEvents_unfold emitting_def one_http_event_def world0_def
      http_chain_def promise_then_def BbPromise_bind_def call_method_def plugin_rest_plugin1)
  from schedule_then_http_chain_then_cloudwatch[OF run start sched val some] ok start some
    emitted
  show ?thesis by simp
qed

subsection \<open>Without http events the HTTP chain does not run\<close>

text \<open>
  Claim C6. When \<^verbatim>\<open>httpValidate\<close> finds no http event, no method of the HTTP chain is
  called: the calls are an initial part of schedule compiler, \<^verbatim>\<open>httpValidate\<close>,
  CloudWatch event compiler, and what the hook settles with and leaves on the plugin
  object is what the CloudWatch event compiler makes of the object that the schedule
  compiler and \<^verbatim>\<open>httpValidate\<close> left, with the validation result stored.
\<close>

theorem no_http_events_no_http_chain:
  assumes run: "package_compileEvents this httpValidate w = (r, w')"
    and start: "calls w = []"
    and none: "\<And>v s1 val s2. this CompileScheduledEvents None (self w) = (Inr v, s1) \<Longrightarrow>
                 httpValidate s1 = (Inr val, s2) \<Longrightarrow> validated_events val = []"
  shows "prefix (map fst (calls w'))
           [CompileScheduledEvents, HttpValidate, CompileCloudWatchEventEvents] \<and>
         list_all (\<lambda>n. n \<notin> set
           [CompileRestApi, CompileResources, CompileMethods, CompileRequestValidators,
            CompileAuthorizers, CompileHttpLambdaPermissions, CompileCors, CompileHttpIamRole,
            CompileDeployment, CompileApiKeys, CompileUsagePlan, CompileUsagePlanKeys])
           (map fst (calls w')) \<and>
         (\<forall>v s1 val s2.
            this CompileScheduledEvents None (self w) = (Inr v, s1) \<longrightarrow>
            httpValidate s1 = (Inr val, s2) \<longrightarrow>
            (r, self w') =
              this CompileCloudWatchEventEvents None
                (s2\<lparr>pluginhttpValidated := Some val, validated := Some val\<rparr>))"
proof -
  obtain r0 s1 where s: "this CompileScheduledEvents None (self w) = (r0, s1)"
    by (cases "this CompileScheduledEvents None (self w)")
  obtain r1 s2 where h: "httpValidate s1 = (r1, s2)" by (cases "httpValidate s1")
  have names: "map fst (calls w') = [CompileScheduledEvents] \<or>
      map fst (calls w') = [CompileScheduledEvents, HttpValidate] \<or>
      map fst (calls w') = [CompileScheduledEvents, HttpValidate, CompileCloudWatchEventEvents]"
  proof (cases r0)
    case (Inl e)
    with run s start show ?thesis by (auto simp: package_compileEvents_unfold)
  next
    case v: (Inr v)
    show ?thesis
    proof (cases r1)
      case (Inl e)
      with run s v h start show ?thesis by (auto simp: package_compileEvents_unfold)
    next
      case (Inr val)
      with none s v h have "validated_events val = []" by simp
      with run s v h Inr start show ?thesis
        by (auto simp: package_compileEvents_unfold call_method_def split: prod.splits)
    qed
  qed
  have state: "(r, self w') =
      this CompileCloudWatchEventEvents None
        (s2'\<lparr>pluginhttpValidated := Some val, validated := Some val\<rparr>)"
    if "this CompileScheduledEvents None (self w) = (Inr v, s1')"
      and "httpValidate s1' = (Inr val, s2')" for v s1' val s2'
  proof -
    from none that have "validated_events val = []" by simp
    with run that show ?thesis
      by (auto simp: package_compileEvents_unfold call_method_def split: prod.splits)
  qed
  from names state show ?thesis by auto
qed

theorem no_http_events_no_http_chain_witness:
  "calls (world0 plugin0 :: (unit, _) world) = [] \<and>
   package_compileEvents all_fulfil no_http_event (world0 plugin0) =
     (Inr None,
      (world0 plugin0)\<lparr>calls := [(CompileScheduledEvents, True), (HttpValidate, True),
                                  (CompileCloudWatchEventEvents, True)],
                        self := plugin0\<lparr>pluginhttpValidated :=
                                   Some \<lparr>validated_events = [], validated_other = ()\<rparr>,
                                 validated :=
                                   Some \<lparr>validated_events = [], validated_other = ()\<rparr>\<rparr>\<rparr>) \<and>
   list_all (\<lambda>n. n \<notin> set
           [CompileRestApi, CompileResources, CompileMethods, CompileRequestValidators,
            CompileAuthorizers, CompileHttpLambdaPermissions, CompileCors, CompileHttpIamRole,
            CompileDeployment, CompileApiKeys, CompileUsagePlan, CompileUsagePlanKeys])
     (map fst (calls (snd (package_compileEvents all_fulfil no_http_event (world0 plugin0)
                             :: _ \<times> (unit, _) world))))"
proof -
  have start: "calls (world0 plugin0 :: (unit, _) world) = []"
    by (simp add: world0_def)
  have run: "package_compileEvents all_fulfil no_http_event (world0 plugin0) =
     (Inr None,
      (world0 plugin0)\<lparr>calls := [(CompileScheduledEvents, True), (HttpValidate, True),
                                  (CompileCloudWatchEventEvents, True)],
                        self := plugin0\<lparr>pluginhttpValidated :=
                                   Some \<lparr>validated_events = [], validated_other = ()\<rparr>,
                                 validated :=
                                   Some \<lparr>validated_events = [], validated_other = ()\<rparr>\<rparr>\<rparr>)"
    by (simp add: package_compileEvents_unfold all_fulfil_def no_http_event_def world0_def
        call_method_def)
  have none: "\<And>v s1 val s2.
      all_fulfil CompileScheduledEvents None (self (world0 plugin0)) = (Inr v, s1) \<Longrightarrow>
      no_http_event s1 = (Inr val, s2) \<Longrightarrow> validated_events val = []"
    by (auto simp: no_http_event_def)
  from no_http_events_no_http_chain[OF run start none] start run
  show ?thesis by simp
qed

subsection \<open>The invoke workflow\<close>

lemma invoke_unfold:
  "invoke this merge w =
     (case getStateMachineArn this (self w) of
        (Inl e, s1) \<Rightarrow>
          (Inl e, w\<lparr>calls := calls w @ [(GetStateMachineArn, False)], self := s1\<rparr>)
      | (Inr arn, s1) \<Rightarrow>
     (case startExecution this arn s1 of
        (Inl e, s2) \<Rightarrow>
          (Inl e, w\<lparr>calls := calls w @ [(GetStateMachineArn, True), (StartExecution, False)],
                    self := s2\<rparr>)
      | (Inr executionArn, s2) \<Rightarrow>
     (case describeExecution this executionArn s2 of
        (Inl e, s3) \<Rightarrow>
          (Inl e, w\<lparr>calls := calls w @ [(GetStateMachineArn, True), (StartExecution, True),
                                         (DescribeExecution, False)],
                    self := s3\<rparr>)
      | (Inr result, s3) \<Rightarrow>
          (if status result = ''FAILED'' then
             (case getExecutionHistory this s3 of
                (Inl e, s4) \<Rightarrow>
                  (Inl e, w\<lparr>calls := calls w @ [(GetStateMachineArn, True), (StartExecution, True),
                                (DescribeExecution, True), (GetExecutionHistory, False)],
                            console := console w @ [LogText []],
                            self := s4\<rparr>)
              | (Inr error, s4) \<Rightarrow>
                  (if history_events error = [] then
                     (Inl TypeError,
                      w\<lparr>calls := calls w @ [(GetStateMachineArn, True), (StartExecution, True),
                                (DescribeExecution, True), (GetExecutionHistory, True)],
                        console := console w @ [LogText []],
                        self := s4\<rparr>)
                   else
                     (Inr (),
                      w\<lparr>calls := calls w @ [(GetStateMachineArn, True), (StartExecution, True),
                                (DescribeExecution, True), (GetExecutionHistory, True)],
                        exitCode := 1,
                        console := console w @
                          [LogText [],
                           LogObject (merge result
                             (executionFailedEventDetails (last (history_events error))))],
                        self := s4\<rparr>)))
           else
             (Inr (),
              w\<lparr>calls := calls w @ [(GetStateMachineArn, True), (StartExecution, True),
                                     (DescribeExecution, True)],
                console := console w @ [LogText [], LogObject result],
                self := s3\<rparr>)))))"
  by (auto simp: invoke_def promise_then_def BbPromise_bind_def call_method_def logger_log_def
      Let_def split: prod.splits sum.splits list.splits)

text \<open>
  Claim C7. When the status that \<^verbatim>\<open>describeExecution\<close> reports is not \<^verbatim>\<open>FAILED\<close>, the
  workflow fulfils, \<^verbatim>\<open>process.exitCode\<close> is what it was (0 in a fresh process), the
  empty line and the result are printed, and the calls made are those of
  \<^verbatim>\<open>getStateMachineArn\<close>, \<^verbatim>\<open>startExecution\<close> and \<^verbatim>\<open>describeExecution\<close>: the execution
  history is not fetched.
\<close>

theorem invoke_not_failed:
  assumes arn: "getStateMachineArn this (self w) = (Inr a, s1)"
    and started: "startExecution this a s1 = (Inr x, s2)"
    and described: "describeExecution this x s2 = (Inr result, s3)"
    and not_failed: "status result \<noteq> ''FAILED''"
    and run: "invoke this merge w = (r, w')"
  shows "r = Inr () \<and>
         exitCode w' = exitCode w \<and>
         console w' = console w @ [LogText [], LogObject result] \<and>
         calls w' = calls w @ [(GetStateMachineArn, True), (StartExecution, True),
                               (DescribeExecution, True)] \<and>
         self w' = s3"
  using assms by (auto simp: invoke_unfold)

theorem invoke_not_failed_witness:
  "status \<lparr>status = ''SUCCEEDED'', execution_rest = [(''executionArn'', ''arn:machine:run'')]\<rparr>
     \<noteq> ''FAILED'' \<and>
   invoke (client0 ''SUCCEEDED'' (Inr failed_history)) merge_details invoke_world0 =
     (Inr (),
      invoke_world0\<lparr>calls := [(GetStateMachineArn, True), (StartExecution, True),
                                (DescribeExecution, True)],
                     console := [LogText [],
                       LogObject \<lparr>status = ''SUCCEEDED'',
                                  execution_rest = [(''executionArn'', ''arn:machine:run'')]\<rparr>]\<rparr>) \<and>
   exitCode (snd (invoke (client0 ''SUCCEEDED'' (Inr failed_history)) merge_details
                    invoke_world0)) = 0"
proof -
  have arn: "getStateMachineArn (client0 ''SUCCEEDED'' (Inr failed_history)) (self invoke_world0)
      = (Inr ''arn:machine'', ())"
    by (simp add: client0_def)
  have started: "startExecution (client0 ''SUCCEEDED'' (Inr failed_history)) ''arn:machine'' ()
      = (Inr ''arn:machine:run'', ())"
    by (simp add: client0_def)
  have described: "describeExecution (client0 ''SUCCEEDED'' (Inr failed_history))
        ''arn:machine:run'' ()
      = (Inr \<lparr>status = ''SUCCEEDED'',
               execution_rest = [(''executionArn'', ''arn:machine:run'')]\<rparr>, ())"
    by (simp add: client0_def)
  have not_failed:
    "status \<lparr>status = ''SUCCEEDED'', execution_rest = [(''executionArn'', ''arn:machine:run'')]\<rparr>
       \<noteq> ''FAILED''"
    by simp
  have run: "invoke (client0 ''SUCCEEDED'' (Inr failed_history)) merge_details invoke_world0 =
      (fst (invoke (client0 ''SUCCEEDED'' (Inr failed_history)) merge_details invoke_world0),
       snd (invoke (client0 ''SUCCEEDED'' (Inr failed_history)) merge_details invoke_world0))"
    by simp
  from invoke_not_failed[OF arn started described not_failed run] not_failed
  show ?thesis
    by (simp add: invoke_world0_def prod_eq_iff world.equality)
qed

text \<open>
  Claim C1, as stated: whenever the reported status is \<^verbatim>\<open>FAILED\<close>, the failure details
  are printed and the exit code is set to 1. With a client that reports \<^verbatim>\<open>FAILED\<close> and
  whose history request is rejected, the workflow is rejected with that error after
  printing the empty line only, and the exit code is not 1.
\<close>

theorem invoke_failed_history_rejected_counterexample:
  "fst (describeExecution (client0 ''FAILED'' (Inl (Rejected ()))) ''arn:machine:run'' ()) =
     Inr \<lparr>status = ''FAILED'', execution_rest = [(''executionArn'', ''arn:machine:run'')]\<rparr> \<and>
   invoke (client0 ''FAILED'' (Inl (Rejected ()))) merge_details invoke_world0 =
     (Inl (Rejected ()),
      invoke_world0\<lparr>calls := [(GetStateMachineArn, True), (StartExecution, True),
                                (DescribeExecution, True), (GetExecutionHistory, False)],
                     console := [LogText []]\<rparr>) \<and>
   exitCode (snd (invoke (client0 ''FAILED'' (Inl (Rejected ()))) merge_details invoke_world0))
     \<noteq> 1"
  by (simp add: invoke_unfold client0_def invoke_world0_def)

text \<open>
  Claim C1, amended. When the reported status is \<^verbatim>\<open>FAILED\<close>, the workflow requests the
  execution history. When the request resolves with at least one event, the workflow
  prints the result with the \<^verbatim>\<open>executionFailedEventDetails\<close> of the last event merged
  into it and sets the exit code to 1. When the request is rejected, the workflow is
  rejected with the same error, only the empty line is printed and the exit code is
  left as it was.
\<close>

theorem invoke_failed:
  assumes arn: "getStateMachineArn this (self w) = (Inr a, s1)"
    and started: "startExecution this a s1 = (Inr x, s2)"
    and described: "describeExecution this x s2 = (Inr result, s3)"
    and failed: "status result = ''FAILED''"
    and run: "invoke this merge w = (r, w')"
  shows "calls w' = calls w @ [(GetStateMachineArn, True), (StartExecution, True),
                               (DescribeExecution, True),
                               (GetExecutionHistory, fulfilled (fst (getExecutionHistory this s3)))] \<and>
         (\<forall>h s4. getExecutionHistory this s3 = (Inr h, s4) \<longrightarrow> history_events h \<noteq> [] \<longrightarrow>
            r = Inr () \<and>
            console w' = console w @
              [LogText [],
               LogObject (merge result (executionFailedEventDetails (last (history_events h))))] \<and>
            exitCode w' = 1) \<and>
         (\<forall>e s4. getExecutionHistory this s3 = (Inl e, s4) \<longrightarrow>
            r = Inl e \<and> console w' = console w @ [LogText []] \<and> exitCode w' = exitCode w)"
  using assms by (auto simp: invoke_unfold split: prod.splits sum.splits if_splits)

theorem invoke_failed_witness:
  "status \<lparr>status = ''FAILED'', execution_rest = [(''executionArn'', ''arn:machine:run'')]\<rparr>
     = ''FAILED'' \<and>
   history_events failed_history \<noteq> [] \<and>
   fst (invoke (client0 ''FAILED'' (Inr failed_history)) merge_details invoke_world0) = Inr () \<and>
   console (snd (invoke (client0 ''FAILED'' (Inr failed_history)) merge_details invoke_world0)) =
     [LogText [],
      LogObject \<lparr>status = ''FAILED'',
                 execution_rest = [(''executionArn'', ''arn:machine:run''),
                                   (''error'', ''Boom''), (''cause'', ''bad input'')]\<rparr>] \<and>
   exitCode (snd (invoke (client0 ''FAILED'' (Inr failed_history)) merge_details invoke_world0))
     = 1"
proof -
  have arn: "getStateMachineArn (client0 ''FAILED'' (Inr failed_history)) (self invoke_world0)
      = (Inr ''arn:machine'', ())"
    by (simp add: client0_def)
  have started: "startExecution (client0 ''FAILED'' (Inr failed_history)) ''arn:machine'' ()
      = (Inr ''arn:machine:run'', ())"
    by (simp add: client0_def)
  have described: "describeExecution (client0 ''FAILED'' (Inr failed_history))
        ''arn:machine:run'' ()
      = (Inr \<lparr>status = ''FAILED'',
               execution_rest = [(''executionArn'', ''arn:machine:run'')]\<rparr>, ())"
    by (simp add: client0_def)
  have failed:
    "status \<lparr>status = ''FAILED'', execution_rest = [(''executionArn'', ''arn:machine:run'')]\<rparr>
       = ''FAILED''"
    by simp
  have run: "invoke (client0 ''FAILED'' (Inr failed_history)) merge_details invoke_world0 =
      (fst (invoke (client0 ''FAILED'' (Inr failed_history)) merge_details invoke_world0),
       snd (invoke (client0 ''FAILED'' (Inr failed_history)) merge_details invoke_world0))"
    by simp
  have history: "getExecutionHistory (client0 ''FAILED'' (Inr failed_history)) ()
      = (Inr failed_history, ())"
    by (simp add: client0_def)
  have events: "history_events failed_history \<noteq> []"
    by (simp add: failed_history_def)
  note t = invoke_failed[OF arn started described failed run, THEN conjunct2, THEN conjunct1,
      rule_format, OF history events]
  have fresh: "console invoke_world0 = []"
    by (simp add: invoke_world0_def)
  have merged: "merge_details
      \<lparr>status = ''FAILED'', execution_rest = [(''executionArn'', ''arn:machine:run'')]\<rparr>
      (executionFailedEventDetails (last (history_events failed_history))) =
      \<lparr>status = ''FAILED'',
       execution_rest = [(''executionArn'', ''arn:machine:run''),
                         (''error'', ''Boom''), (''cause'', ''bad input'')]\<rparr>"
    by (simp add: failed_history_def merge_details_def)
  from t failed events fresh merged show ?thesis
    by simp
qed

subsection \<open>The constructor and name resolution\<close>

lemma plugin_stage_same: "s\<lparr>stage := stage s\<rparr> = s"
  by simp

lemma run_chain_at_stage:
  assumes keeps: "\<And>n v s. stage (snd (this n v s)) = stage s"
    and c: "stage (self w) = c"
  shows "run_chain (at_stage c this) ns w = run_chain this ns w \<and>
         stage (self (snd (run_chain this ns w))) = c"
proof (induction ns rule: rev_induct)
  case Nil
  show ?case by (simp add: run_chain_Nil c)
next
  case (snoc n ns)
  obtain r1 w1 where p: "run_chain this ns w = (r1, w1)" by (cases "run_chain this ns w")
  with snoc have q: "run_chain (at_stage c this) ns w = (r1, w1)" and c1: "stage (self w1) = c"
    by simp_all
  show ?case
  proof (cases r1)
    case (Inl e)
    with p q c1 show ?thesis by (simp add: run_chain_snoc promise_then_def)
  next
    case (Inr v)
    have same: "at_stage c this n v (self w1) = this n v (self w1)"
      using c1 by (simp add: at_stage_def plugin_stage_same[of "self w1", simplified c1])
    have after: "stage (snd (this n v (self w1))) = c"
      by (simp add: keeps c1)
    from Inr p q same after show ?thesis
      by (auto simp: run_chain_snoc promise_then_def call_method_def split: prod.splits)
  qed
qed

lemma call_method_at_stage:
  assumes keeps: "\<And>n v s. stage (snd (this n v s)) = stage s"
    and c: "stage (self w) = c"
  shows "call_method n (at_stage c this n v) w = call_method n (this n v) w \<and>
         stage (self (snd (call_method n (this n v) w))) = c"
proof -
  have "at_stage c this n v (self w) = this n v (self w)"
    using c by (simp add: at_stage_def plugin_stage_same[of "self w", simplified c])
  moreover have "stage (snd (this n v (self w))) = c"
    by (simp add: keeps c)
  ultimately show ?thesis
    by (auto simp: call_method_def split: prod.splits)
qed

lemma package_compileEvents_at_stage:
  assumes keeps: "\<And>n v s. stage (snd (this n v s)) = stage s"
    and keepsV: "\<And>s. stage (snd (httpValidate s)) = stage s"
    and c: "stage (self w) = c"
  shows "package_compileEvents (at_stage c this) (\<lambda>s. httpValidate (s\<lparr>stage := c\<rparr>)) w =
           package_compileEvents this httpValidate w \<and>
         stage (self (snd (package_compileEvents this httpValidate w))) = c"
proof -
  let ?cw = "\<lambda>this. (\<lambda>_. call_method CompileCloudWatchEventEvents
                (this CompileCloudWatchEventEvents None))"
  obtain r0 s1 where s: "this CompileScheduledEvents None (self w) = (r0, s1)"
    by (cases "this CompileScheduledEvents None (self w)")
  have s': "at_stage c this CompileScheduledEvents None (self w) = (r0, s1)"
    using s c by (simp add: at_stage_def plugin_stage_same[of "self w", simplified c])
  have c1: "stage s1 = c"
    using keeps[of CompileScheduledEvents None "self w"] s c by simp
  show ?thesis
  proof (cases r0)
    case (Inl e)
    with s s' c1 show ?thesis by (simp add: package_compileEvents_unfold)
  next
    case v: (Inr v)
    obtain r1 s2 where h: "httpValidate s1 = (r1, s2)" by (cases "httpValidate s1")
    have h': "httpValidate (s1\<lparr>stage := c\<rparr>) = (r1, s2)"
      using h by (simp add: plugin_stage_same[of s1, simplified c1])
    have c2: "stage s2 = c"
      using keepsV[of s1] h c1 by simp
    show ?thesis
    proof (cases r1)
      case (Inl e)
      with s s' v h h' c2 show ?thesis by (simp add: package_compileEvents_unfold)
    next
      case (Inr val)
      define w2 where "w2 = w\<lparr>calls := calls w @ [(CompileScheduledEvents, True), (HttpValidate, True)],
                            self := s2\<lparr>pluginhttpValidated := Some val, validated := Some val\<rparr>\<rparr>"
      have cw2: "stage (self w2) = c"
        by (simp add: w2_def c2)
      show ?thesis
      proof (cases "validated_events val = []")
        case True
        from call_method_at_stage[where this = this, OF keeps cw2, where n = CompileCloudWatchEventEvents and v = None]
          s s' v h h' Inr True
        show ?thesis
          by (simp add: package_compileEvents_unfold w2_def)
      next
        case False
        obtain r3 w3 where p: "run_chain this http_chain_order w2 = (r3, w3)"
          by (cases "run_chain this http_chain_order w2")
        from run_chain_at_stage[where this = this, OF keeps cw2, where ns = http_chain_order] p
        have q: "run_chain (at_stage c this) http_chain_order w2 = (r3, w3)"
          and c3: "stage (self w3) = c"
          by simp_all
        have both: "promise_then (http_chain (at_stage c this)) (?cw (at_stage c this)) w2 =
              promise_then (http_chain this) (?cw this) w2 \<and>
            stage (self (snd (promise_then (http_chain this) (?cw this) w2))) = c"
        proof (cases r3)
          case (Inl e)
          with p q c3 show ?thesis
            by (simp add: http_chain_run_chain promise_then_def)
        next
          case r3: (Inr v3)
          from call_method_at_stage[where this = this, OF keeps c3, where n = CompileCloudWatchEventEvents and v = None] r3 p q
          show ?thesis
            by (simp add: http_chain_run_chain promise_then_def)
        qed
        with s s' v h h' Inr False show ?thesis
          by (simp add: package_compileEvents_unfold w2_def)
      qed
    qed
  qed
qed

text \<open>
  Claim C9. When the provider configuration gives no stage, the constructor sets the
  stage of the plugin object to the constant \<^verbatim>\<open>ap-southeast-2\<close>; this is the stage of
  the NamingContext, and \<^verbatim>\<open>resolveName\<close> on the constructed object computes every
  identifier from it. It feeds the later name resolution: \<^verbatim>\<open>index.js\<close> does not assign
  the stage again, so when the mixed-in methods leave it as it is (the NamingContext
  is never mutated after construction), each packaging hook run on the constructed
  object is the same as the hook in which every compiler and \<^verbatim>\<open>httpValidate\<close> is
  handed the object with the stage \<^verbatim>\<open>ap-southeast-2\<close>, and the object it leaves has
  that stage.
\<close>

theorem constructor_stage_default:
  fixes w :: "('r, ('n, 'api, ('ev, 'o) validated_http, 'x) plugin) world"
  assumes none: "provider_stage sls = None"
  shows "stage (constructor sls opts api rest :: ('n, 'api, ('ev, 'o) validated_http, 'x) plugin) =
           ''ap-southeast-2'' \<and>
         context_stage (naming_context_of
             (constructor sls opts api rest :: ('n, 'api, ('ev, 'o) validated_http, 'x) plugin)) =
           ''ap-southeast-2'' \<and>
         resolveName naming valid
             (constructor sls opts api rest :: ('n, 'api, ('ev, 'o) validated_http, 'x) plugin)
             name kind idx =
           (if name = [] \<or> \<not> list_all valid name then Inl NamingError
            else Inr (naming (service_service sls) ''ap-southeast-2'' name kind idx)) \<and>
         (self w = constructor sls opts api rest \<longrightarrow>
          (\<forall>n v s. stage (snd (this n v s)) = stage s) \<longrightarrow>
          (\<forall>s. stage (snd (httpValidate s)) = stage s) \<longrightarrow>
            package_compileFunctions this w =
              package_compileFunctions (at_stage ''ap-southeast-2'' this) w \<and>
            stage (self (snd (package_compileFunctions this w))) = ''ap-southeast-2'' \<and>
            package_compileEvents this httpValidate w =
              package_compileEvents (at_stage ''ap-southeast-2'' this)
                (\<lambda>s. httpValidate (s\<lparr>stage := ''ap-southeast-2''\<rparr>)) w \<and>
            stage (self (snd (package_compileEvents this httpValidate w))) = ''ap-southeast-2'')"
proof -
  have st: "stage (constructor sls opts api rest :: ('n, 'api, ('ev, 'o) validated_http, 'x) plugin) =
      ''ap-southeast-2''"
    using none by (simp add: constructor_def)
  have ctx: "context_stage (naming_context_of
      (constructor sls opts api rest :: ('n, 'api, ('ev, 'o) validated_http, 'x) plugin)) = ''ap-southeast-2''"
    by (simp add: naming_context_of_def st)
  have svc: "context_service (naming_context_of
      (constructor sls opts api rest :: ('n, 'api, ('ev, 'o) validated_http, 'x) plugin)) = service_service sls"
    by (simp add: naming_context_of_def constructor_def)
  have res: "resolveName naming valid
      (constructor sls opts api rest :: ('n, 'api, ('ev, 'o) validated_http, 'x) plugin) name kind idx =
           (if name = [] \<or> \<not> list_all valid name then Inl NamingError
            else Inr (naming (service_service sls) ''ap-southeast-2'' name kind idx))"
    by (simp only: resolveName_def ctx svc)
  have hooks: "package_compileFunctions this w =
              package_compileFunctions (at_stage ''ap-southeast-2'' this) w \<and>
            stage (self (snd (package_compileFunctions this w))) = ''ap-southeast-2'' \<and>
            package_compileEvents this httpValidate w =
              package_compileEvents (at_stage ''ap-southeast-2'' this)
                (\<lambda>s. httpValidate (s\<lparr>stage := ''ap-southeast-2''\<rparr>)) w \<and>
            stage (self (snd (package_compileEvents this httpValidate w))) = ''ap-southeast-2''"
    if fresh: "self w = constructor sls opts api rest"
      and keeps: "\<forall>n v s. stage (snd (this n v s)) = stage s"
      and keepsV: "\<forall>s. stage (snd (httpValidate s)) = stage s"
  proof -
    from st have c: "stage (self w) = ''ap-southeast-2''"
      by (simp add: fresh)
    from keeps have k: "\<And>n v s. stage (snd (this n v s)) = stage s"
      by blast
    from keepsV have kv: "\<And>s. stage (snd (httpValidate s)) = stage s"
      by blast
    from run_chain_at_stage[where this = this, OF k c, where ns = compileFunctions_order]
    have f: "package_compileFunctions this w =
             package_compileFunctions (at_stage ''ap-southeast-2'' this) w"
      and fs: "stage (self (snd (package_compileFunctions this w))) = ''ap-southeast-2''"
      by (simp_all add: package_compileFunctions_run_chain)
    from package_compileEvents_at_stage[where this = this and httpValidate = httpValidate,
        OF k kv c]
    have e: "package_compileEvents this httpValidate w =
             package_compileEvents (at_stage ''ap-southeast-2'' this)
               (\<lambda>s. httpValidate (s\<lparr>stage := ''ap-southeast-2''\<rparr>)) w"
      and es: "stage (self (snd (package_compileEvents this httpValidate w))) =
               ''ap-southeast-2''"
      by simp_all
    from f fs e es show ?thesis by blast
  qed
  from st ctx res hooks show ?thesis by blast
qed

theorem constructor_stage_default_witness:
  "provider_stage \<lparr>service_service = ''orders'', provider_region = Some ''eu-west-1'',
                   provider_stage = None\<rparr> = None \<and>
   self (world0 plugin1) =
     constructor \<lparr>service_service = ''orders'', provider_region = Some ''eu-west-1'',
                  provider_stage = None\<rparr> None None [] \<and>
   stage plugin1 = ''ap-southeast-2'' \<and>
   resolveName identifier0 valid0 plugin1 ''OrderFlow'' () None =
     Inr ''orders-ap-southeast-2-OrderFlow'' \<and>
   package_compileFunctions emitting (world0 plugin1) =
     package_compileFunctions (at_stage ''ap-southeast-2'' emitting) (world0 plugin1) \<and>
   map snd (plugin_rest (self (snd (package_compileFunctions emitting (world0 plugin1))))) =
     [''ap-southeast-2'', ''ap-southeast-2'', ''ap-southeast-2'', ''ap-southeast-2'',
      ''ap-southeast-2''] \<and>
   stage (self (snd (package_compileEvents emitting one_http_event (world0 plugin1)))) =
     ''ap-southeast-2''"
proof -
  have none: "provider_stage \<lparr>service_service = ''orders'', provider_region = Some ''eu-west-1'',
                   provider_stage = None\<rparr> = None"
    by simp
  have fresh: "self (world0 plugin1) =
     constructor \<lparr>service_service = ''orders'', provider_region = Some ''eu-west-1'',
                  provider_stage = None\<rparr> None None []"
    by (simp add: world0_def plugin1_def)
  have keeps: "\<forall>n v s. stage (snd (emitting n v s)) = stage s"
    by (simp add: emitting_def)
  have keepsV: "\<forall>s :: (string, unit, (unit, unit) validated_http, (method_name \<times> string) list)
      plugin. stage (snd (one_http_event s)) = stage s"
    by (simp add: one_http_event_def)
  have valid: "list_all valid0 ''OrderFlow''"
    by (simp add: valid0_def)
  have emitted: "map snd (plugin_rest (self (snd (package_compileFunctions emitting
        (world0 plugin1))))) =
     [''ap-southeast-2'', ''ap-southeast-2'', ''ap-southeast-2'', ''ap-southeast-2'',
      ''ap-southeast-2'']"
    by (simp add: package_compileFunctions_def promise_then_def BbPromise_bind_def
        call_method_def emitting_def world0_def stage_plugin1 plugin_rest_plugin1)
  note t = constructor_stage_default[where this = emitting and httpValidate = one_http_event
      and naming = identifier0 and valid = valid0 and name = "''OrderFlow''"
      and kind = "()" and idx = None and w = "world0 plugin1" and opts = None and api = None
      and rest = "[]", OF none]
  have constructed: "constructor \<lparr>service_service = ''orders'',
      provider_region = Some ''eu-west-1'', provider_stage = None\<rparr> None None [] = plugin1"
    by (simp add: plugin1_def)
  note t' = t[unfolded constructed]
  from t' have staged: "stage plugin1 = ''ap-southeast-2''"
    by (rule conjunct1)
  from t' valid have resolved: "resolveName identifier0 valid0 plugin1 ''OrderFlow'' () None =
      Inr ''orders-ap-southeast-2-OrderFlow''"
    by (simp add: identifier0_def)
  from t' fresh[unfolded constructed] keeps keepsV
  have same_hook: "package_compileFunctions emitting (world0 plugin1) =
      package_compileFunctions (at_stage ''ap-southeast-2'' emitting) (world0 plugin1)"
    by blast
  from t' fresh[unfolded constructed] keeps keepsV
  have later: "stage (self (snd (package_compileEvents emitting one_http_event
      (world0 plugin1)))) = ''ap-southeast-2''"
    by blast
  show ?thesis
    by (intro conjI) (rule none fresh staged resolved same_hook emitted later)+
qed

subsection \<open>Splitting, joining, upper case\<close>

lemma js_split_not_Nil: "js_split c s \<noteq> []"
  by (induction s) (auto split: list.splits)

lemma js_split_no_sep: "c \<notin> set p \<Longrightarrow> js_split c p = [p]"
  by (induction p) auto

lemma js_split_append_sep:
  "c \<notin> set m \<Longrightarrow> js_split c (m @ c # rest) = m # js_split c rest"
  by (induction m) (auto simp: js_split_not_Nil split: list.splits)

lemma js_split_pieces: "q \<in> set (js_split c s) \<Longrightarrow> c \<notin> set q"
  by (induction s arbitrary: q) (auto split: if_splits list.splits)

lemma js_split_join:
  "qs \<noteq> [] \<Longrightarrow> \<forall>q \<in> set qs. c \<notin> set q \<Longrightarrow> js_split c (js_join [c] qs) = qs"
proof (induction "[c]" qs rule: js_join.induct)
  case 1
  then show ?case by simp
next
  case (2 p)
  then show ?case by (simp add: js_split_no_sep)
next
  case (3 p q ps)
  then show ?case by (simp add: js_split_append_sep)
qed

lemma display_path_segments:
  assumes "p \<noteq> ''/''" and "filter (\<lambda>q. q \<noteq> []) (js_split (CHR ''/'') p) \<noteq> []"
  shows "js_split (CHR ''/'') (tl (display_path p)) =
         filter (\<lambda>q. q \<noteq> []) (js_split (CHR ''/'') p)"
proof -
  have "\<forall>q \<in> set (filter (\<lambda>q. q \<noteq> []) (js_split (CHR ''/'') p)). CHR ''/'' \<notin> set q"
    by (auto dest: js_split_pieces)
  from js_split_join[OF assms(2) this] assms(1) show ?thesis
    by (simp add: display_path_def)
qed

lemma display_path_no_segments:
  "p \<noteq> ''/'' \<Longrightarrow> filter (\<lambda>q. q \<noteq> []) (js_split (CHR ''/'') p) = [] \<Longrightarrow>
   display_path p = ''/''"
  by (simp add: display_path_def)

lemma display_path_hd:
  "p \<noteq> ''/'' \<Longrightarrow> hd (display_path p) = CHR ''/''"
  by (simp add: display_path_def)

lemma map_upper_char_small_letters: "map upper_char small_letters = capital_letters"
  unfolding small_letters_def capital_letters_def by code_simp

lemma small_letters_codes: "map char_of [97::nat..<123] = small_letters"
  unfolding small_letters_def by code_simp

lemma length_small_letters: "length small_letters = 26"
  by (simp add: small_letters_def)

lemma upper_char_small_letter:
  assumes "k < 26"
  shows "upper_char (small_letters ! k) = capital_letters ! k"
proof -
  from assms have "map upper_char small_letters ! k = upper_char (small_letters ! k)"
    by (simp add: length_small_letters)
  then show ?thesis by (simp add: map_upper_char_small_letters)
qed

lemma upper_char_other:
  assumes "c \<notin> set small_letters"
  shows "upper_char c = c"
proof (rule ccontr)
  assume "upper_char c \<noteq> c"
  then have range: "(97::nat) \<le> of_char c" "of_char c \<le> (122::nat)"
    by (auto simp: upper_char_def split: if_splits)
  then have "(of_char c :: nat) \<in> set [97..<123]"
    unfolding set_upt by simp
  then have "char_of (of_char c :: nat) \<in> set (map char_of [97::nat..<123])"
    by (simp only: set_map image_eqI)
  then have "c \<in> set small_letters"
    by (simp only: small_letters_codes char_of_char)
  with assms show False by simp
qed

lemma toUpperCase_ascii: "ascii m \<Longrightarrow> toUpperCase unicode m = map upper_char m"
  by (simp add: toUpperCase_def)

lemma toUpperCase_post: "toUpperCase unicode ''post'' = ''POST''"
proof -
  have "map upper_char ''post'' = ''POST''" by code_simp
  then show ?thesis by (simp add: toUpperCase_def ascii_def)
qed

lemma toUpperCase_get: "toUpperCase unicode ''get'' = ''GET''"
proof -
  have "map upper_char ''get'' = ''GET''" by code_simp
  then show ?thesis by (simp add: toUpperCase_def ascii_def)
qed

lemma display_path_orders: "display_path ''orders'' = ''/orders''"
  by (simp add: display_path_def)

subsection \<open>The loops of the display\<close>

lemma http_message_well_formed:
  "well_formed h \<Longrightarrow> http_message unicode endpoint h = Inr (endpoint_line unicode endpoint h)"
proof (cases h)
  case (HttpObject m p)
  assume "well_formed h"
  with HttpObject show ?thesis by (auto simp: endpoint_line_def)
next
  case (HttpString s)
  assume "well_formed h"
  with HttpString obtain m p ts where "js_split (CHR '' '') s = m # p # ts"
    by (cases "js_split (CHR '' '') s"; cases "tl (js_split (CHR '' '') s)") auto
  with HttpString show ?thesis by (simp add: endpoint_line_def)
qed

lemma events_forEach_well_formed:
  "list_all well_formed (http_bound_events evs) \<Longrightarrow>
   events_forEach unicode endpoint evs acc =
     Inr (acc @ concat (map (endpoint_line unicode endpoint) (http_bound_events evs)))"
proof (induction evs arbitrary: acc)
  case Nil
  then show ?case by (simp add: http_bound_events_def)
next
  case (Cons ev evs)
  show ?case
  proof (cases "http ev")
    case None
    with Cons show ?thesis by (simp add: http_bound_events_def)
  next
    case (Some h)
    show ?thesis
    proof (cases "truthy (http ev)")
      case True
      with Some Cons.prems have wf: "well_formed h"
        and rest: "list_all well_formed (http_bound_events evs)"
        by (simp_all add: http_bound_events_def)
      from True Some
      show ?thesis
        by (simp add: Cons.IH[OF rest] http_message_well_formed[OF wf] http_bound_events_def)
    next
      case False
      with Some Cons show ?thesis by (simp add: http_bound_events_def)
    qed
  qed
qed

lemma stateMachines_forEach_well_formed:
  "list_all well_formed
     (concat (map (\<lambda>name. case events (getStateMachine this name) of
                                 None \<Rightarrow> [] | Some evs \<Rightarrow> http_bound_events evs) names)) \<Longrightarrow>
   stateMachines_forEach unicode this endpoint names acc =
     Inr (acc @ concat (map (endpoint_line unicode endpoint)
       (concat (map (\<lambda>name. case events (getStateMachine this name) of
                                 None \<Rightarrow> [] | Some evs \<Rightarrow> http_bound_events evs) names))))"
proof (induction names arbitrary: acc)
  case Nil
  then show ?case by simp
next
  case (Cons name names)
  show ?case
  proof (cases "events (getStateMachine this name)")
    case None
    with Cons show ?thesis by simp
  next
    case (Some evs)
    with Cons.prems have wf: "list_all well_formed (http_bound_events evs)"
      and rest: "list_all well_formed
        (concat (map (\<lambda>name. case events (getStateMachine this name) of
                                 None \<Rightarrow> [] | Some evs \<Rightarrow> http_bound_events evs) names))"
      by simp_all
    from Some show ?thesis
      by (simp add: Cons.IH[OF rest] events_forEach_well_formed[OF wf])
  qed
qed

lemma endpoint_line_not_Nil: "endpoint_line unicode endpoint h \<noteq> []"
  by (simp add: endpoint_line_def)

lemma concat_lines_Nil:
  "concat (map (endpoint_line unicode endpoint) hs) = [] \<longleftrightarrow> hs = []"
  by (cases hs) (simp_all add: endpoint_line_not_Nil)

lemma display_well_formed:
  assumes "list_all well_formed (http_bound this)"
  shows "display ch unicode this w =
     (if http_bound this = [] then (Inr [], w)
      else (Inr (display_heading ch (v3Api (self w))
                  @ concat (map (endpoint_line unicode (template_string (endpointInfo (self w))))
                               (http_bound this))
                  @ ''\<newline>''),
            w\<lparr>console := console w @
               [LogText (display_heading ch (v3Api (self w))
                  @ concat (map (endpoint_line unicode (template_string (endpointInfo (self w))))
                               (http_bound this))
                  @ ''\<newline>'')]\<rparr>))"
proof (cases "isStateMachines this")
  case False
  then show ?thesis by (simp add: display_def http_bound_def)
next
  case True
  define hs where "hs = http_bound this"
  define endpoint where "endpoint = template_string (endpointInfo (self w))"
  have hs: "concat (map (\<lambda>name. case events (getStateMachine this name) of
                                 None \<Rightarrow> [] | Some evs \<Rightarrow> http_bound_events evs)
        (getAllStateMachines this)) = hs"
    using True by (simp add: http_bound_def hs_def)
  from assms have wf: "list_all well_formed
     (concat (map (\<lambda>name. case events (getStateMachine this name) of
                                 None \<Rightarrow> [] | Some evs \<Rightarrow> http_bound_events evs)
        (getAllStateMachines this)))"
    by (simp add: hs hs_def)
  have loop: "stateMachines_forEach unicode this endpoint (getAllStateMachines this) [] =
      Inr (concat (map (endpoint_line unicode endpoint) hs))"
    by (simp add: stateMachines_forEach_well_formed[OF wf] hs)
  have empty: "concat (map (endpoint_line unicode endpoint) hs) = [] \<longleftrightarrow> hs = []"
    by (rule concat_lines_Nil)
  have "display ch unicode this w =
     (if hs = [] then (Inr [], w)
      else (Inr (display_heading ch (v3Api (self w))
                  @ concat (map (endpoint_line unicode endpoint) hs) @ ''\<newline>''),
            w\<lparr>console := console w @
               [LogText (display_heading ch (v3Api (self w))
                  @ concat (map (endpoint_line unicode endpoint) hs) @ ''\<newline>'')]\<rparr>))"
    unfolding display_def Let_def endpoint_def[symmetric]
    using True by (simp only: loop empty if_True sum.case logger_log_def split: if_splits)
  then show ?thesis
    by (simp only: hs_def endpoint_def)
qed

lemma http_bound_one_binding:
  "truthy (Some h) \<Longrightarrow> http_bound (one_binding name h) = [h]"
  by (simp add: http_bound_def http_bound_events_def one_binding_def)

lemma display_one_binding:
  assumes "truthy (Some h)" and "well_formed h"
  shows "display ch unicode (one_binding name h) w =
     (Inr (display_heading ch (v3Api (self w))
            @ endpoint_line unicode (template_string (endpointInfo (self w))) h
            @ ''\<newline>''),
      w\<lparr>console := console w @
         [LogText (display_heading ch (v3Api (self w))
            @ endpoint_line unicode (template_string (endpointInfo (self w))) h
            @ ''\<newline>'')]\<rparr>)"
proof -
  have bound: "http_bound (one_binding name h) = [h]"
    by (rule http_bound_one_binding[OF assms(1)])
  with assms(2) have wf: "list_all well_formed (http_bound (one_binding name h))"
    by simp
  show ?thesis
    by (simp add: display_well_formed[OF wf] bound)
qed

subsection \<open>The two shapes of an http binding\<close>

text \<open>
  Claim C10. For a state machine with one event, \<^verbatim>\<open>display\<close> returns and logs the
  heading and one line, for both shapes of the http binding: an object with \<^verbatim>\<open>method\<close>
  and \<^verbatim>\<open>path\<close>, and a string whose first token between spaces is the method and whose
  second is the path; a string \<^verbatim>\<open>method path\<close> gives the line of the object with that
  method and path. The method is printed in upper case: on ASCII text of the same
  length, each letter a to z replaced by its capital and every other character kept,
  on other text as the case mapping of Unicode has it. The path \<^verbatim>\<open>/\<close> is printed as the
  empty string; any other path is printed as \<^verbatim>\<open>/\<close> alone when it has no non-empty
  segment, and otherwise begins with \<^verbatim>\<open>/\<close>, and splitting what follows at \<^verbatim>\<open>/\<close> gives
  back exactly its non-empty segments, in order. In a configuration of any number of
  state machines and events whose bindings have these shapes, the message is the
  heading and the lines of the bindings, each line as for the single event.
\<close>

theorem display_http_shapes:
  fixes w :: "('r, ('n, 'api, 'val, 'x) plugin) world"
  shows
  "(let message = display_heading ch (v3Api (self w)) @ ''\<newline>  '' @ toUpperCase unicode m
                    @ '' - '' @ template_string (endpointInfo (self w)) @ display_path p
                    @ ''\<newline>'';
        shown = (Inr message :: 'e failure + string,
                 w\<lparr>console := console w @ [LogText message]\<rparr>)
    in display ch unicode (one_binding name (HttpObject (Some m) (Some p))) w = shown \<and>
       (js_split (CHR '' '') s = m # p # ts \<longrightarrow>
          display ch unicode (one_binding name (HttpString s)) w = shown) \<and>
       (CHR '' '' \<notin> set m \<and> CHR '' '' \<notin> set p \<longrightarrow>
          display ch unicode (one_binding name (HttpString (m @ '' '' @ p))) w = shown)) \<and>
   (ascii m \<longrightarrow>
      length (toUpperCase unicode m) = length m \<and>
      (\<forall>i<length m.
         (\<forall>k<26. m ! i = small_letters ! k \<longrightarrow>
                  toUpperCase unicode m ! i = capital_letters ! k) \<and>
         (m ! i \<notin> set small_letters \<longrightarrow> toUpperCase unicode m ! i = m ! i))) \<and>
   (\<not> ascii m \<longrightarrow> toUpperCase unicode m = unicode m) \<and>
   display_path ''/'' = [] \<and>
   (p \<noteq> ''/'' \<longrightarrow>
      list_all (\<lambda>q. q \<noteq> [] \<and> CHR ''/'' \<notin> set q)
        (filter (\<lambda>q. q \<noteq> []) (js_split (CHR ''/'') p)) \<and>
      (filter (\<lambda>q. q \<noteq> []) (js_split (CHR ''/'') p) = [] \<longrightarrow> display_path p = ''/'') \<and>
      (filter (\<lambda>q. q \<noteq> []) (js_split (CHR ''/'') p) \<noteq> [] \<longrightarrow>
         hd (display_path p) = CHR ''/'' \<and>
         js_split (CHR ''/'') (tl (display_path p)) =
           filter (\<lambda>q. q \<noteq> []) (js_split (CHR ''/'') p))) \<and>
   (list_all well_formed (http_bound this) \<longrightarrow> http_bound this \<noteq> [] \<longrightarrow>
      fst (display ch unicode this w) =
        (Inr (display_heading ch (v3Api (self w))
              @ concat (map (endpoint_line unicode (template_string (endpointInfo (self w))))
                           (http_bound this))
              @ ''\<newline>'') :: 'e failure + string)) \<and>
   endpoint_line unicode endpoint (HttpObject (Some m) (Some p)) =
     ''\<newline>  '' @ toUpperCase unicode m @ '' - '' @ endpoint @ display_path p \<and>
   (js_split (CHR '' '') s = m # p # ts \<longrightarrow>
      endpoint_line unicode endpoint (HttpString s) =
        ''\<newline>  '' @ toUpperCase unicode m @ '' - '' @ endpoint @ display_path p)"
proof -
  define message where "message = display_heading ch (v3Api (self w)) @ ''\<newline>  ''
      @ toUpperCase unicode m @ '' - '' @ template_string (endpointInfo (self w))
      @ display_path p @ ''\<newline>''"
  define shown :: "('e failure + string) \<times> ('r, ('n, 'api, 'val, 'x) plugin) world"
    where "shown = (Inr message, w\<lparr>console := console w @ [LogText message]\<rparr>)"
  have object: "display ch unicode (one_binding name (HttpObject (Some m) (Some p))) w = shown"
    by (simp add: display_one_binding endpoint_line_def shown_def message_def)
  have tokens: "display ch unicode (one_binding name (HttpString s)) w = shown"
    if "js_split (CHR '' '') s = m # p # ts"
  proof -
    from that have "s \<noteq> []" by auto
    with that show ?thesis
      by (simp add: display_one_binding endpoint_line_def shown_def message_def)
  qed
  have spaced: "display ch unicode (one_binding name (HttpString (m @ '' '' @ p))) w = shown"
    if "CHR '' '' \<notin> set m" "CHR '' '' \<notin> set p"
  proof -
    from that have "js_split (CHR '' '') (m @ '' '' @ p) = [m, p]"
      by (simp add: js_split_append_sep js_split_no_sep)
    then show ?thesis
      by (simp add: display_one_binding endpoint_line_def shown_def message_def)
  qed
  have upper: "length (toUpperCase unicode m) = length m \<and>
      (\<forall>i<length m.
         (\<forall>k<26. m ! i = small_letters ! k \<longrightarrow>
                  toUpperCase unicode m ! i = capital_letters ! k) \<and>
         (m ! i \<notin> set small_letters \<longrightarrow> toUpperCase unicode m ! i = m ! i))"
    if "ascii m"
    using that by (simp add: toUpperCase_ascii upper_char_small_letter upper_char_other)
  have other: "toUpperCase unicode m = unicode m" if "\<not> ascii m"
    using that by (simp add: toUpperCase_def)
  have root: "display_path ''/'' = []"
    by (simp add: display_path_def)
  have pieces: "list_all (\<lambda>q. q \<noteq> [] \<and> CHR ''/'' \<notin> set q)
        (filter (\<lambda>q. q \<noteq> []) (js_split (CHR ''/'') p))"
    by (auto simp: list_all_iff dest: js_split_pieces)
  have every: "fst (display ch unicode this w) =
        (Inr (display_heading ch (v3Api (self w))
              @ concat (map (endpoint_line unicode (template_string (endpointInfo (self w))))
                           (http_bound this))
              @ ''\<newline>'') :: 'e failure + string)"
    if "list_all well_formed (http_bound this)" "http_bound this \<noteq> []"
    using that by (simp add: display_well_formed)
  have line_object: "endpoint_line unicode endpoint (HttpObject (Some m) (Some p)) =
     ''\<newline>  '' @ toUpperCase unicode m @ '' - '' @ endpoint @ display_path p"
    by (simp add: endpoint_line_def)
  have line_string: "endpoint_line unicode endpoint (HttpString s) =
        ''\<newline>  '' @ toUpperCase unicode m @ '' - '' @ endpoint @ display_path p"
    if "js_split (CHR '' '') s = m # p # ts"
    using that by (simp add: endpoint_line_def)
  from object tokens spaced upper other root pieces every line_object line_string
    display_path_no_segments[of p] display_path_hd[of p] display_path_segments[of p]
  show ?thesis
    unfolding Let_def shown_def message_def by blast
qed

theorem display_http_shapes_witness:
  "js_split (CHR '' '') ''get /orders//{id}/ x'' = [''get'', ''/orders//{id}/'', ''x''] \<and>
   ''/orders//{id}/'' \<noteq> ''/'' \<and>
   display chalk0 unicode0 (one_binding ''OrderFlow'' (HttpString ''get /orders//{id}/ x''))
       deployed0 =
     (Inr (''Serverless StepFunctions Outputs\<newline>endpoints:''
           @ ''\<newline>  GET - https://api.test/dev/orders/{id}'' @ ''\<newline>''),
      deployed0\<lparr>console :=
        [LogText (''Serverless StepFunctions Outputs\<newline>endpoints:''
           @ ''\<newline>  GET - https://api.test/dev/orders/{id}'' @ ''\<newline>'')]\<rparr>) \<and>
   display chalk0 unicode0
       (one_binding ''OrderFlow'' (HttpObject (Some ''get'') (Some ''/orders//{id}/'')))
       deployed0 =
     (Inr (''Serverless StepFunctions Outputs\<newline>endpoints:''
           @ ''\<newline>  GET - https://api.test/dev/orders/{id}'' @ ''\<newline>''),
      deployed0\<lparr>console :=
        [LogText (''Serverless StepFunctions Outputs\<newline>endpoints:''
           @ ''\<newline>  GET - https://api.test/dev/orders/{id}'' @ ''\<newline>'')]\<rparr>) \<and>
   js_split (CHR ''/'') (tl (display_path ''/orders//{id}/'')) = [''orders'', ''{id}'']"
proof -
  have tokens: "js_split (CHR '' '') ''get /orders//{id}/ x'' = [''get'', ''/orders//{id}/'', ''x'']"
    by simp
  have root: "''/orders//{id}/'' \<noteq> ''/''"
    by simp
  have segments: "filter (\<lambda>q. q \<noteq> []) (js_split (CHR ''/'') ''/orders//{id}/'') =
      [''orders'', ''{id}'']"
    by simp
  have path: "display_path ''/orders//{id}/'' = ''/orders/{id}''"
    by (simp add: display_path_def)
  have heading: "display_heading chalk0 (v3Api (self deployed0)) =
      ''Serverless StepFunctions Outputs\<newline>endpoints:''"
    by (simp add: display_heading_def chalk0_def deployed0_def world0_def plugin0_def
        constructor_def)
  have endpoint: "template_string (endpointInfo (self deployed0)) = ''https://api.test/dev''"
    by (simp add: deployed0_def world0_def)
  have fresh: "console deployed0 = []"
    by (simp add: deployed0_def world0_def)
  note t = display_http_shapes[where ch = chalk0 and unicode = unicode0 and w = deployed0
      and m = "''get''" and p = "''/orders//{id}/''" and s = "''get /orders//{id}/ x''"
      and ts = "[''x'']" and name = "''OrderFlow''", unfolded Let_def]
  note shapes = t[THEN conjunct1]
  note paths = t[THEN conjunct2, THEN conjunct2, THEN conjunct2, THEN conjunct2,
      THEN conjunct1, rule_format, OF root]
  from shapes[THEN conjunct1] have object: "display chalk0 unicode0
       (one_binding ''OrderFlow'' (HttpObject (Some ''get'') (Some ''/orders//{id}/'')))
       deployed0 =
     (Inr (''Serverless StepFunctions Outputs\<newline>endpoints:''
           @ ''\<newline>  GET - https://api.test/dev/orders/{id}'' @ ''\<newline>''),
      deployed0\<lparr>console :=
        [LogText (''Serverless StepFunctions Outputs\<newline>endpoints:''
           @ ''\<newline>  GET - https://api.test/dev/orders/{id}'' @ ''\<newline>'')]\<rparr>)"
    by (simp add: heading endpoint fresh path toUpperCase_get)
  from shapes[THEN conjunct2, THEN conjunct1, rule_format, OF tokens]
  have string: "display chalk0 unicode0
       (one_binding ''OrderFlow'' (HttpString ''get /orders//{id}/ x'')) deployed0 =
     (Inr (''Serverless StepFunctions Outputs\<newline>endpoints:''
           @ ''\<newline>  GET - https://api.test/dev/orders/{id}'' @ ''\<newline>''),
      deployed0\<lparr>console :=
        [LogText (''Serverless StepFunctions Outputs\<newline>endpoints:''
           @ ''\<newline>  GET - https://api.test/dev/orders/{id}'' @ ''\<newline>'')]\<rparr>)"
    by (simp add: heading endpoint fresh path toUpperCase_get)
  from paths segments have split: "js_split (CHR ''/'') (tl (display_path ''/orders//{id}/'')) =
      [''orders'', ''{id}'']"
    by simp
  show ?thesis
    by (intro conjI) (rule tokens root string object split)+
qed

subsection \<open>One line for each Http-bound event\<close>

text \<open>
  Claim C3, as stated: for every configuration, one line per Http-bound event. A state
  machine with the events \<^verbatim>\<open>{http: {method: 'get', path: 'a'}}\<close> and \<^verbatim>\<open>{http: 'post'}\<close>
  has two Http-bound events; the second has no path, \<^verbatim>\<open>display\<close> throws a
  \<^verbatim>\<open>TypeError\<close>, and no line is returned or logged.
\<close>

theorem display_binding_without_path_counterexample:
  "http_bound bad_yaml = [HttpObject (Some ''get'') (Some ''a''), HttpString ''post''] \<and>
   display chalk0 unicode0 bad_yaml deployed0 =
     (Inl TypeError :: unit failure + string, deployed0)"
  by (simp add: bad_yaml_def http_bound_def http_bound_events_def display_def)

text \<open>
  Claim C3, amended. For every configuration in which each http binding is an object
  with a method and a path or a string with a method and a path, \<^verbatim>\<open>display\<close> returns
  and logs, after the heading, one line \<^verbatim>\<open>METHOD - endpoint path\<close> per Http-bound event
  of all state machines, in order; when there is no such event it returns the empty
  string and logs nothing. For one state machine with the one event
  \<^verbatim>\<open>{path: 'orders', method: 'post'}\<close> the line is \<^verbatim>\<open>POST - \<close> followed by the endpoint
  and \<^verbatim>\<open>/orders\<close>.
\<close>

theorem display_one_line_per_http_event:
  assumes "list_all well_formed (http_bound this)"
  shows "(let message = display_heading ch (v3Api (self w))
                @ concat (map (endpoint_line unicode (template_string (endpointInfo (self w))))
                             (http_bound this))
                @ ''\<newline>''
          in display ch unicode this w =
               (if http_bound this = [] then (Inr [], w)
                else (Inr message, w\<lparr>console := console w @ [LogText message]\<rparr>))) \<and>
         (let message = display_heading ch (v3Api (self u))
                @ ''\<newline>  POST - '' @ template_string (endpointInfo (self u)) @ ''/orders''
                @ ''\<newline>''
          in display ch unicode
               \<lparr> isStateMachines = True, getAllStateMachines = [name],
                 getStateMachine = (\<lambda>n. \<lparr>events = Some
                   [\<lparr>http = Some (HttpObject (Some ''post'') (Some ''orders''))\<rparr>]\<rparr>) \<rparr> u =
               (Inr message, u\<lparr>console := console u @ [LogText message]\<rparr>))"
proof -
  define one where "one =
     \<lparr> isStateMachines = True, getAllStateMachines = [name],
       getStateMachine = (\<lambda>n. \<lparr>events = Some
         [\<lparr>http = Some (HttpObject (Some ''post'') (Some ''orders''))\<rparr>]\<rparr>) \<rparr>"
  have bound: "http_bound one = [HttpObject (Some ''post'') (Some ''orders'')]"
    by (simp add: one_def http_bound_def http_bound_events_def)
  then have wf: "list_all well_formed (http_bound one)"
    by simp
  have line: "endpoint_line unicode e (HttpObject (Some ''post'') (Some ''orders'')) =
      ''\<newline>  POST - '' @ e @ ''/orders''" for e
    by (simp add: endpoint_line_def toUpperCase_post display_path_orders)
  have first: "let message = display_heading ch (v3Api (self w))
                @ concat (map (endpoint_line unicode (template_string (endpointInfo (self w))))
                             (http_bound this))
                @ ''\<newline>''
          in display ch unicode this w =
               (if http_bound this = [] then (Inr [], w)
                else (Inr message, w\<lparr>console := console w @ [LogText message]\<rparr>))"
    by (simp only: Let_def display_well_formed[OF assms])
  have second: "let message = display_heading ch (v3Api (self u))
                @ ''\<newline>  POST - '' @ template_string (endpointInfo (self u)) @ ''/orders''
                @ ''\<newline>''
          in display ch unicode one u =
               (Inr message, u\<lparr>console := console u @ [LogText message]\<rparr>)"
    by (simp add: Let_def display_well_formed[OF wf] bound line)
  from first second show ?thesis
    by (simp only: one_def)
qed

theorem display_one_line_per_http_event_witness:
  "list_all well_formed (http_bound yaml0) \<and>
   http_bound yaml0 =
     [HttpObject (Some ''post'') (Some ''orders''), HttpString ''get /orders//{id}/''] \<and>
   display chalk0 unicode0 yaml0 deployed0 =
     (Inr (''Serverless StepFunctions Outputs\<newline>endpoints:''
           @ ''\<newline>  POST - https://api.test/dev/orders''
           @ ''\<newline>  GET - https://api.test/dev/orders/{id}''
           @ ''\<newline>''),
      deployed0\<lparr>console :=
        [LogText (''Serverless StepFunctions Outputs\<newline>endpoints:''
           @ ''\<newline>  POST - https://api.test/dev/orders''
           @ ''\<newline>  GET - https://api.test/dev/orders/{id}''
           @ ''\<newline>'')]\<rparr>)"
proof -
  have bound: "http_bound yaml0 =
     [HttpObject (Some ''post'') (Some ''orders''), HttpString ''get /orders//{id}/'']"
    by (simp add: yaml0_def http_bound_def http_bound_events_def)
  have wf: "list_all well_formed (http_bound yaml0)"
    by (simp add: bound)
  have some: "http_bound yaml0 \<noteq> []"
    by (simp add: bound)
  have heading: "display_heading chalk0 (v3Api (self deployed0)) =
      ''Serverless StepFunctions Outputs\<newline>endpoints:''"
    by (simp add: display_heading_def chalk0_def deployed0_def world0_def plugin0_def
        constructor_def)
  have endpoint: "template_string (endpointInfo (self deployed0)) = ''https://api.test/dev''"
    by (simp add: deployed0_def world0_def)
  have fresh: "console deployed0 = []"
    by (simp add: deployed0_def world0_def)
  have lines: "concat (map (endpoint_line unicode0 ''https://api.test/dev'') (http_bound yaml0)) =
      ''\<newline>  POST - https://api.test/dev/orders''
      @ ''\<newline>  GET - https://api.test/dev/orders/{id}''"
    by (simp add: bound endpoint_line_def toUpperCase_post toUpperCase_get display_path_def)
  from display_one_line_per_http_event[OF wf, where ch = chalk0 and unicode = unicode0 and w = deployed0, THEN conjunct1]
  have "display chalk0 unicode0 yaml0 deployed0 =
     (Inr (''Serverless StepFunctions Outputs\<newline>endpoints:''
           @ ''\<newline>  POST - https://api.test/dev/orders''
           @ ''\<newline>  GET - https://api.test/dev/orders/{id}''
           @ ''\<newline>''),
      deployed0\<lparr>console :=
        [LogText (''Serverless StepFunctions Outputs\<newline>endpoints:''
           @ ''\<newline>  POST - https://api.test/dev/orders''
           @ ''\<newline>  GET - https://api.test/dev/orders/{id}''
           @ ''\<newline>'')]\<rparr>)"
    by (simp add: Let_def heading endpoint fresh lines some)
  with bound wf show ?thesis by simp
qed

end
